theory Spec2Isabelle
  imports Complex_Main
begin

section \<open>The React binding \<open>List.tsx\<close> and the Vue \<open>ListItem\<close>\<close>

text \<open>
  The development embeds the glue code of \<^verbatim>\<open>src/src/List.tsx\<close> (the React
  \<^verbatim>\<open>List\<close> and \<^verbatim>\<open>Item\<close> components with their observer handle) and of the Vue
  \<^verbatim>\<open>ListItem\<close> component. JavaScript numbers that carry indices and counts are
  modelled as \<^typ>\<open>int\<close>; numbers that carry pixel lengths, scroll offsets and time
  stamps are modelled as \<^typ>\<open>real\<close> (floating-point rounding is not modelled).
  Optional boolean props (\<^verbatim>\<open>boolean | undefined\<close>) are modelled by their truthiness.
  The minifier prefix \<^verbatim>\<open>_\<close> of private names is dropped, since an identifier
  cannot start with it.
\<close>

subsection \<open>Data\<close>

text \<open>The pending scroll corrections \<^verbatim>\<open>{ _start, _end }\<close> read with \<^verbatim>\<open>store._getJump\<close>.\<close>

record jump =
  jump_start :: real
  jump_end :: real

text \<open>
  The store of \<^verbatim>\<open>./state\<close> is not part of the sources at hand; the component only
  reads it through its getters. A \<open>store_view\<close> holds what those getters return
  during one render: the snapshots taken with \<^verbatim>\<open>useSyncExternalStore\<close> and the two
  getters that take an index.
\<close>

record store_view =
  getScrollSize :: real
  getStartIndex :: int
  getEndIndex :: int
  getViewportWidth :: real
  getViewportHeight :: real
  getViewportSize :: real
  getJump :: jump
  getItemOffset :: "int \<Rightarrow> real"
  getIsItemHeightUnCached :: "int \<Rightarrow> bool"

text \<open>
  The props of \<^verbatim>\<open>List\<close> that the modelled code reads. \<^verbatim>\<open>onEndReached\<close> is an
  optional callback: the field says whether one was given.
\<close>

record list_props =
  itemMargin :: int
  horizontal :: bool
  reverse :: bool
  endThreshold :: int
  onEndReached :: bool

text \<open>
  The host container \<^verbatim>\<open>rootRef.current\<close>: a DOM element of which the component
  reads and writes \<^verbatim>\<open>scrollLeft\<close> and \<^verbatim>\<open>scrollTop\<close>. The ref is \<open>None\<close> while
  the element is not mounted.
\<close>

record scroller =
  scrollLeft :: real
  scrollTop :: real

subsection \<open>The imperative handle: \<^verbatim>\<open>scrollTo\<close>\<close>

definition scrollTo :: "list_props \<Rightarrow> store_view \<Rightarrow> scroller option \<Rightarrow> int \<Rightarrow> scroller option" where
  "scrollTo p st rootRef index =
     (case rootRef of
        None \<Rightarrow> None
      | Some rootEl \<Rightarrow>
          (let offset = getItemOffset st index;
               offset = (if getScrollSize st - (offset + getViewportSize st) \<le> 0
                         then getScrollSize st - getViewportSize st else offset);
               offset = (if reverse p then offset * (- 1) else offset)
           in Some (if horizontal p then rootEl\<lparr>scrollLeft := offset\<rparr>
                    else rootEl\<lparr>scrollTop := offset\<rparr>)))"

subsection \<open>The layout effect that consumes the jump\<close>

text \<open>The scroll offset of the host container along the scroll axis.\<close>

definition scrollPos :: "list_props \<Rightarrow> scroller \<Rightarrow> real" where
  "scrollPos p rootEl = (if horizontal p then scrollLeft rootEl else scrollTop rootEl)"

text \<open>\<^verbatim>\<open>scrollLeft += d\<close> when horizontal, \<^verbatim>\<open>scrollTop += d\<close> otherwise.\<close>

definition addScroll :: "list_props \<Rightarrow> real \<Rightarrow> scroller \<Rightarrow> scroller" where
  "addScroll p d rootEl =
     (if horizontal p then rootEl\<lparr>scrollLeft := scrollLeft rootEl + d\<rparr>
      else rootEl\<lparr>scrollTop := scrollTop rootEl + d\<rparr>)"

text \<open>
  The first conditional of the effect. A number is truthy when it is not zero, so
  \<^verbatim>\<open>jump._start && ...\<close> tests \<open>jump_start \<noteq> 0\<close>.
\<close>

definition applyJumpStart :: "list_props \<Rightarrow> store_view \<Rightarrow> scroller \<Rightarrow> scroller" where
  "applyJumpStart p st rootEl =
     (let isStartInView = (getStartIndex st = 0)
      in if jump_start (getJump st) \<noteq> 0 \<and> \<not> (isStartInView \<and> scrollPos p rootEl = 0)
         then addScroll p (jump_start (getJump st)) rootEl
         else rootEl)"

text \<open>The second conditional of the effect; \<open>count\<close> is the memoized element count.\<close>

definition applyJumpEnd :: "list_props \<Rightarrow> store_view \<Rightarrow> int \<Rightarrow> scroller \<Rightarrow> scroller" where
  "applyJumpEnd p st count rootEl =
     (let isStartInView = (getStartIndex st = 0);
          isEndInView = (getEndIndex st - (count - 1) = 0)
      in if jump_end (getJump st) \<noteq> 0 \<and> \<not> isStartInView \<and> isEndInView
         then addScroll p (jump_end (getJump st)) rootEl
         else rootEl)"

text \<open>The whole effect: nothing happens while the ref is empty.\<close>

definition jumpEffect :: "list_props \<Rightarrow> store_view \<Rightarrow> int \<Rightarrow> scroller option \<Rightarrow> scroller option" where
  "jumpEffect p st count rootRef =
     (case rootRef of
        None \<Rightarrow> None
      | Some rootEl \<Rightarrow> Some (applyJumpEnd p st count (applyJumpStart p st rootEl)))"

subsection \<open>The \<^verbatim>\<open>onEndReached\<close> effect\<close>

text \<open>
  The ref \<^verbatim>\<open>onEndReachedCalledIndex\<close> starts at \<open>-1\<close>. To observe the callback, the
  state also keeps a log of its invocations: each entry is the element count of the
  render that invoked it, paired with the value of the ref at the moment the callback
  starts to run.
\<close>

record end_state =
  onEndReachedCalledIndex :: int
  endReachedCalls :: "(int \<times> int) list"

definition end_state_init :: end_state where
  "end_state_init = \<lparr>onEndReachedCalledIndex = - 1, endReachedCalls = []\<rparr>"

definition endReachedEffect :: "list_props \<Rightarrow> int \<Rightarrow> int \<Rightarrow> end_state \<Rightarrow> end_state" where
  "endReachedEffect p count endIndex s =
     (let endMargin = count - 1 - endIndex
      in if onEndReached p \<and> endMargin \<le> endThreshold p \<and> onEndReachedCalledIndex s < count
         then (let s1 = s\<lparr>onEndReachedCalledIndex := count\<rparr>
               in s1\<lparr>endReachedCalls :=
                      endReachedCalls s1 @ [(count, onEndReachedCalledIndex s1)]\<rparr>)
         else s)"

text \<open>
  A history of the component: the effect runs once for each listed render, with the
  props, the element count and the end index of that render.
\<close>

fun endReachedEffects :: "(list_props \<times> int \<times> int) list \<Rightarrow> end_state \<Rightarrow> end_state" where
  "endReachedEffects [] s = s"
| "endReachedEffects ((p, count, endIndex) # rs) s =
     endReachedEffects rs (endReachedEffect p count endIndex s)"

subsection \<open>Children, the element count and the item window\<close>

text \<open>
  A child as \<^verbatim>\<open>Children.forEach\<close> and \<^verbatim>\<open>Children.map\<close> hand it to their callback:
  \<^verbatim>\<open>null\<close> (or \<^verbatim>\<open>undefined\<close>), a boolean, or an element with its optional key
  and its content.
\<close>

datatype 'e child = Null | Boolean bool | Element "string option" 'e

definition isInvalidElement :: "'e child \<Rightarrow> bool" where
  "isInvalidElement e = (case e of Null \<Rightarrow> True | Boolean b \<Rightarrow> True | Element k x \<Rightarrow> False)"

fun countLoop :: "int \<Rightarrow> 'e child list \<Rightarrow> int" where
  "countLoop i [] = i"
| "countLoop i (e # es) = (if isInvalidElement e then countLoop i es else countLoop (i + 1) es)"

definition childCount :: "'e child list \<Rightarrow> int" where
  "childCount children = countLoop 0 children"

text \<open>
  Modelled from the spec: \<^verbatim>\<open>max\<close> and \<^verbatim>\<open>min\<close> of \<^verbatim>\<open>./utils\<close> are not among the
  sources at hand. By the spec the window is extended by the margin and clamped to the
  valid indices, so they are the numeric maximum and minimum of two numbers.
\<close>

definition max_util :: "int \<Rightarrow> int \<Rightarrow> int" where
  "max_util a b = (if a < b then b else a)"

definition min_util :: "int \<Rightarrow> int \<Rightarrow> int" where
  "min_util a b = (if a < b then a else b)"

definition startIndexWithMargin :: "list_props \<Rightarrow> store_view \<Rightarrow> int" where
  "startIndexWithMargin p st = max_util (getStartIndex st - itemMargin p) 0"

definition endIndexWithMargin :: "list_props \<Rightarrow> store_view \<Rightarrow> int \<Rightarrow> int" where
  "endIndexWithMargin p st count = min_util (getEndIndex st + itemMargin p) (count - 1)"

text \<open>
  The props of one \<^verbatim>\<open>Item\<close> element. The handle and the store are the same for
  every item and are passed to the functions below instead. The key is the key of the
  child when it is truthy (a non-empty string) and the index otherwise.
\<close>

record 'e item =
  item_key :: "string + int"
  item_element :: 'e
  item_index :: int
  item_isHorizontal :: bool
  item_isReversed :: bool

definition itemKey :: "string option \<Rightarrow> int \<Rightarrow> string + int" where
  "itemKey k i = (case k of None \<Rightarrow> Inr i | Some key \<Rightarrow> (if key = [] then Inr i else Inl key))"

text \<open>
  The callback of \<^verbatim>\<open>Children.map\<close>, with the counter \<open>i\<close> threaded through; a
  callback that returns nothing contributes nothing to \<^verbatim>\<open>items\<close>.
\<close>

fun itemsLoop :: "list_props \<Rightarrow> int \<Rightarrow> int \<Rightarrow> int \<Rightarrow> 'e child list \<Rightarrow> 'e item list" where
  "itemsLoop p lo hi i [] = []"
| "itemsLoop p lo hi i (e # es) =
     (if isInvalidElement e then itemsLoop p lo hi i es
      else if i + 1 < lo \<or> i + 1 > hi then itemsLoop p lo hi (i + 1) es
      else (case e of
              Element k x \<Rightarrow>
                \<lparr>item_key = itemKey k (i + 1), item_element = x, item_index = i + 1,
                 item_isHorizontal = horizontal p, item_isReversed = reverse p\<rparr>
                # itemsLoop p lo hi (i + 1) es
            | _ \<Rightarrow> itemsLoop p lo hi (i + 1) es))"

definition items :: "list_props \<Rightarrow> store_view \<Rightarrow> 'e child list \<Rightarrow> 'e item list" where
  "items p st children =
     itemsLoop p (startIndexWithMargin p st) (endIndexWithMargin p st (childCount children))
       (- 1) children"

text \<open>
  The children of the inner container: \<^verbatim>\<open>{viewportSize !== 0 && items}\<close>. React
  renders nothing for \<^verbatim>\<open>false\<close>.
\<close>

definition innerChildren :: "list_props \<Rightarrow> store_view \<Rightarrow> 'e child list \<Rightarrow> 'e item list" where
  "innerChildren p st children = (if getViewportSize st \<noteq> 0 then items p st children else [])"

subsection \<open>What an item renders\<close>

text \<open>
  A style object is a list of properties with their values, in the order of the object
  literal. A value is a string, a number (React) or a number followed by \<^verbatim>\<open>"px"\<close>
  (the Vue component's \<^verbatim>\<open>offset + "px"\<close>).
\<close>

datatype css_value = Str string | Num real | Px real

type_synonym style = "(string \<times> css_value) list"

record 'e rendered_div =
  div_style :: style
  div_children :: 'e

text \<open>The React \<^verbatim>\<open>Item\<close>: offset and visibility are read from the store by index.\<close>

definition Item :: "store_view \<Rightarrow> 'e item \<Rightarrow> 'e rendered_div" where
  "Item store props =
     (let offset = getItemOffset store (item_index props);
          hide = getIsItemHeightUnCached store (item_index props)
      in \<lparr>div_style =
            [(''margin'', Str ''0''), (''padding'', Str ''0''), (''position'', Str ''absolute'')]
            @ (if item_isHorizontal props
               then [(''display'', Str ''flex''), (''height'', Str ''100%''), (''top'', Num 0)]
                    @ (if item_isReversed props then [(''right'', Num offset)]
                       else [(''left'', Num offset)])
               else [(''width'', Str ''100%''), (''left'', Num 0)]
                    @ (if item_isReversed props then [(''bottom'', Num offset)]
                       else [(''top'', Num offset)]))
            @ (if hide then [(''visibility'', Str ''hidden'')] else []),
          div_children = item_element props\<rparr>)"

text \<open>
  The Vue \<^verbatim>\<open>ListItem\<close>: offset and visibility are props. \<^verbatim>\<open>isRTLDocument\<close> of
  \<^verbatim>\<open>../core/environment\<close> is not among the sources at hand; its result is a
  parameter.
\<close>

record 'e listitem_props =
  li_children :: 'e
  li_index :: int
  li_offset :: real
  li_hide :: bool
  li_isHorizontal :: bool

definition ListItem :: "bool \<Rightarrow> 'e listitem_props \<Rightarrow> 'e rendered_div" where
  "ListItem isRTLDocument props =
     \<lparr>div_style =
        [(''margin'', Num 0), (''padding'', Num 0), (''position'', Str ''absolute''),
         (if li_isHorizontal props then ''height'' else ''width'', Str ''100%''),
         (if li_isHorizontal props then ''top'' else ''left'', Str ''0px''),
         (if li_isHorizontal props then (if isRTLDocument then ''right'' else ''left'') else ''top'',
          Px (li_offset props)),
         (''visibility'', Str (if li_hide props then ''hidden'' else ''visible''))]
        @ (if li_isHorizontal props then [(''display'', Str ''flex'')] else []),
      div_children = li_children props\<rparr>"

text \<open>
  Modelled from the spec: the Vue component that mounts \<^verbatim>\<open>ListItem\<close> is not among the
  sources at hand. By the spec (4.1 and the read API) the rendering layer reads
  \<open>getItemOffset(index)\<close> and \<open>isUnmeasured(index)\<close> from the store for every mounted
  index and uses the latter to keep the item invisible; these are the values it passes
  as \<^verbatim>\<open>_offset\<close> and \<^verbatim>\<open>_hide\<close>.
\<close>

definition vueItemProps :: "store_view \<Rightarrow> bool \<Rightarrow> int \<Rightarrow> 'e \<Rightarrow> 'e listitem_props" where
  "vueItemProps store isHorizontal i e =
     \<lparr>li_children = e, li_index = i, li_offset = getItemOffset store i,
      li_hide = getIsItemHeightUnCached store i, li_isHorizontal = isHorizontal\<rparr>"

text \<open>The value a style object gives to a property, if any.\<close>

definition styleOf :: "style \<Rightarrow> string \<Rightarrow> css_value option" where
  "styleOf sty prop = map_of sty prop"

subsection \<open>The observer handle\<close>

text \<open>
  DOM elements are named by numbers. The messages are those of the update protocol
  that \<^verbatim>\<open>store._update\<close> receives. The index of \<open>HANDLE_ITEM_INTERSECTION\<close> is read
  with \<^verbatim>\<open>mountedIndexes.get(target)!\<close>: \<open>None\<close> stands for \<^verbatim>\<open>undefined\<close>, which the
  non-null assertion does not rule out at run time.
\<close>

type_synonym element = nat

datatype action =
    HANDLE_SCROLL real
  | HANDLE_ITEM_INTERSECTION "int option" real
  | UPDATE_ITEM_SIZES "real list" "int list"
  | UPDATE_VIEWPORT_SIZE real real
  | UPDATE_CACHE_LENGTH int

text \<open>
  The variables the handle closes over. The two \<^verbatim>\<open>WeakMap\<close>s are maps from elements
  to indices.

  Modelled from the spec: \<^verbatim>\<open>debounce\<close> of \<^verbatim>\<open>./utils\<close> is not among the sources at
  hand. By the spec (5 and 9) it is a cancellable timer with a start and a cancel
  operation: calling the debounced function starts the timer anew with the delay given
  to \<^verbatim>\<open>debounce\<close>, at most one run is pending, the wrapped function runs when the
  timer fires, and \<^verbatim>\<open>_cancel\<close> drops the pending run. \<open>requestSyncTimer\<close> is the
  delay in milliseconds of the pending run of \<^verbatim>\<open>requestSync\<close>, if there is one.
\<close>

record handle_state =
  viewedCount :: int
  mountedIndexes :: "element \<rightharpoonup> int"
  viewedIndexes :: "element \<rightharpoonup> int"
  requestSyncTimer :: "real option"

definition debounce_call :: "real \<Rightarrow> real option \<Rightarrow> real option" where
  "debounce_call ms pending = Some ms"

definition debounce_cancel :: "real option \<Rightarrow> real option" where
  "debounce_cancel pending = None"

definition handle_init :: handle_state where
  "handle_init = \<lparr>viewedCount = 0, mountedIndexes = Map.empty, viewedIndexes = Map.empty,
                  requestSyncTimer = None\<rparr>"

text \<open>\<^verbatim>\<open>_observe(el, i)\<close> and the cleanup function it returns.\<close>

definition observe :: "element \<Rightarrow> int \<Rightarrow> handle_state \<Rightarrow> handle_state" where
  "observe el i s = s\<lparr>mountedIndexes := (mountedIndexes s)(el \<mapsto> i)\<rparr>"

definition observe_cleanup :: "element \<Rightarrow> handle_state \<Rightarrow> handle_state" where
  "observe_cleanup el s =
     (let s1 = s\<lparr>mountedIndexes := (mountedIndexes s)(el := None)\<rparr>
      in if viewedIndexes s1 el \<noteq> None
         then s1\<lparr>viewedIndexes := (viewedIndexes s1)(el := None), viewedCount := viewedCount s1 - 1\<rparr>
         else s1)"

text \<open>The cleanup function that \<^verbatim>\<open>_init\<close> returns cancels the pending run.\<close>

definition init_cleanup :: "handle_state \<Rightarrow> handle_state" where
  "init_cleanup s = s\<lparr>requestSyncTimer := debounce_cancel (requestSyncTimer s)\<rparr>"

definition syncViewportToScrollPosition :: "list_props \<Rightarrow> scroller \<Rightarrow> action" where
  "syncViewportToScrollPosition p rootEl =
     HANDLE_SCROLL
       (if horizontal p then (if reverse p then - scrollLeft rootEl else scrollLeft rootEl)
        else (if reverse p then - scrollTop rootEl else scrollTop rootEl))"

text \<open>
  The function wrapped by \<^verbatim>\<open>debounce(..., 200)\<close>, at the moment its timer fires. The
  pending run is consumed; the function returns at once when \<^verbatim>\<open>viewedCount\<close> is
  truthy, and otherwise reports the native scroll offset and calls \<^verbatim>\<open>requestSync\<close>
  again. Without a pending run no timer fires and nothing happens.
\<close>

definition requestSync_fire :: "list_props \<Rightarrow> scroller \<Rightarrow> handle_state \<Rightarrow> handle_state \<times> action list" where
  "requestSync_fire p rootEl s =
     (case requestSyncTimer s of
        None \<Rightarrow> (s, [])
      | Some ms \<Rightarrow>
          (let s0 = s\<lparr>requestSyncTimer := None\<rparr>
           in if viewedCount s0 \<noteq> 0 then (s0, [])
              else (s0\<lparr>requestSyncTimer := debounce_call 200 (requestSyncTimer s0)\<rparr>,
                    [syncViewportToScrollPosition p rootEl])))"

text \<open>
  Successive firings of the timer with nothing else in between; the list gives the
  state of the host container at each firing.
\<close>

fun requestSync_fires :: "list_props \<Rightarrow> scroller list \<Rightarrow> handle_state \<Rightarrow> handle_state \<times> action list" where
  "requestSync_fires p [] s = (s, [])"
| "requestSync_fires p (rootEl # rs) s =
     (let (s1, out1) = requestSync_fire p rootEl s;
          (s2, out2) = requestSync_fires p rs s1
      in (s2, out1 @ out2))"

subsubsection \<open>The resize observer\<close>

record ro_entry =
  ro_target :: element
  contentRect_width :: real
  contentRect_height :: real

text \<open>
  One iteration of the loop over the entries. The loop carries the messages sent so
  far and the two arrays \<^verbatim>\<open>resizedItemSizes\<close> and \<^verbatim>\<open>resizedItemIndexes\<close>.
\<close>

definition ro_entry_step ::
  "list_props \<Rightarrow> element \<Rightarrow> handle_state \<Rightarrow> action list \<times> real list \<times> int list \<Rightarrow> ro_entry
   \<Rightarrow> action list \<times> real list \<times> int list" where
  "ro_entry_step p wrapper s acc entry =
     (case acc of (sent, resizedItemSizes, resizedItemIndexes) \<Rightarrow>
        if ro_target entry = wrapper
        then (sent @ [UPDATE_VIEWPORT_SIZE (contentRect_width entry) (contentRect_height entry)],
              resizedItemSizes, resizedItemIndexes)
        else (case mountedIndexes s (ro_target entry) of
                Some index \<Rightarrow>
                  (sent,
                   resizedItemSizes @ [if horizontal p then contentRect_width entry
                                       else contentRect_height entry],
                   resizedItemIndexes @ [index])
              | None \<Rightarrow> (sent, resizedItemSizes, resizedItemIndexes)))"

definition ro_callback :: "list_props \<Rightarrow> element \<Rightarrow> handle_state \<Rightarrow> ro_entry list \<Rightarrow> action list" where
  "ro_callback p wrapper s entries =
     (case foldl (ro_entry_step p wrapper s) ([], [], []) entries of
        (sent, resizedItemSizes, resizedItemIndexes) \<Rightarrow>
          if length resizedItemSizes \<noteq> 0
          then sent @ [UPDATE_ITEM_SIZES resizedItemSizes resizedItemIndexes]
          else sent)"

subsubsection \<open>The intersection observer\<close>

record rect =
  rect_left :: real
  rect_top :: real
  rect_right :: real
  rect_bottom :: real

text \<open>
  An entry of the intersection observer. The observer is created with an explicit
  root, and every target is a descendant of the root in the same document, so
  \<^verbatim>\<open>rootBounds\<close> is never \<^verbatim>\<open>null\<close>.
\<close>

record io_entry =
  io_target :: element
  io_time :: real
  isIntersecting :: bool
  boundingClientRect :: rect
  rootBounds :: rect

text \<open>One iteration of \<^verbatim>\<open>entries.forEach\<close>: it carries \<^verbatim>\<open>latestEntry\<close> and the state.\<close>

definition io_entry_step :: "io_entry option \<times> handle_state \<Rightarrow> io_entry \<Rightarrow> io_entry option \<times> handle_state" where
  "io_entry_step acc entry =
     (case acc of (latestEntry, s) \<Rightarrow>
        (if (case latestEntry of None \<Rightarrow> True | Some l \<Rightarrow> io_time l < io_time entry)
            \<and> mountedIndexes s (io_target entry) \<noteq> None
         then Some entry else latestEntry,
         if isIntersecting entry
         then (case mountedIndexes s (io_target entry) of
                 Some index \<Rightarrow>
                   s\<lparr>viewedIndexes := (viewedIndexes s)(io_target entry \<mapsto> index),
                     viewedCount := viewedCount s + 1\<rparr>
               | None \<Rightarrow> s)
         else (if viewedIndexes s (io_target entry) \<noteq> None
               then s\<lparr>viewedIndexes := (viewedIndexes s)(io_target entry := None),
                      viewedCount := viewedCount s - 1\<rparr>
               else s)))"

text \<open>The offset that \<open>HANDLE_ITEM_INTERSECTION\<close> carries for an entry.\<close>

definition intersectionOffset :: "list_props \<Rightarrow> io_entry \<Rightarrow> real" where
  "intersectionOffset p entry =
     (if horizontal p
      then (if reverse p then rect_right (rootBounds entry) - rect_right (boundingClientRect entry)
            else rect_left (boundingClientRect entry) - rect_left (rootBounds entry))
      else (if reverse p then rect_bottom (rootBounds entry) - rect_bottom (boundingClientRect entry)
            else rect_top (boundingClientRect entry) - rect_top (rootBounds entry)))"

definition io_callback ::
  "list_props \<Rightarrow> scroller \<Rightarrow> handle_state \<Rightarrow> io_entry list \<Rightarrow> handle_state \<times> action list" where
  "io_callback p rootEl s entries =
     (case foldl io_entry_step (None, s) entries of
        (latestEntry, s1) \<Rightarrow>
          if viewedCount s1 = 0
          then (s1\<lparr>requestSyncTimer := debounce_call 200 (requestSyncTimer s1)\<rparr>,
                [syncViewportToScrollPosition p rootEl])
          else (case latestEntry of
                  Some l \<Rightarrow>
                    (s1, [HANDLE_ITEM_INTERSECTION (mountedIndexes s1 (io_target l))
                            (intersectionOffset p l)])
                | None \<Rightarrow> (s1, [])))"

text \<open>Recognisers for the messages the claims count.\<close>

fun isItemIntersection :: "action \<Rightarrow> bool" where
  "isItemIntersection (HANDLE_ITEM_INTERSECTION i off) = True"
| "isItemIntersection a = False"

fun isItemSizes :: "action \<Rightarrow> bool" where
  "isItemSizes (UPDATE_ITEM_SIZES sizes indexes) = True"
| "isItemSizes a = False"

text \<open>
  Two conditions used to state when the counter \<^verbatim>\<open>viewedCount\<close> speaks for the set of
  intersecting mounted items, which is the domain of \<^verbatim>\<open>viewedIndexes\<close>. The counter is
  in step when it is the size of that set. A batch has no repeated enter when no entry
  reports a mounted element as intersecting while the element is already in the set.
\<close>

definition counterInStep :: "handle_state \<Rightarrow> bool" where
  "counterInStep s =
     (finite (dom (viewedIndexes s)) \<and> viewedCount s = int (card (dom (viewedIndexes s))))"

fun noRepeatedEnter :: "handle_state \<Rightarrow> io_entry list \<Rightarrow> bool" where
  "noRepeatedEnter s [] = True"
| "noRepeatedEnter s (entry # entries) =
     ((isIntersecting entry \<and> mountedIndexes s (io_target entry) \<noteq> None
         \<and> viewedIndexes s (io_target entry) \<noteq> None) = False
      \<and> noRepeatedEnter (snd (io_entry_step (None, s) entry)) entries)"

subsection \<open>Example data\<close>

text \<open>
  A vertical, non-reversed list; a host container scrolled to 120 and later to 130 and
  to 500; the bounds of the root; and four entries of the intersection observer. Element
  1 enters at time 1 and leaves at time 2, element 2 enters at time 3, and element 9,
  which is never mounted, is reported at time 4.
\<close>

definition ex_props :: list_props where
  "ex_props = \<lparr>itemMargin = 6, horizontal = False, reverse = False, endThreshold = 0,
               onEndReached = False\<rparr>"

definition ex_root :: scroller where
  "ex_root = \<lparr>scrollLeft = 0, scrollTop = 120\<rparr>"

definition ex_root_130 :: scroller where
  "ex_root_130 = \<lparr>scrollLeft = 0, scrollTop = 130\<rparr>"

definition ex_root_500 :: scroller where
  "ex_root_500 = \<lparr>scrollLeft = 0, scrollTop = 500\<rparr>"

definition ex_rootBounds :: rect where
  "ex_rootBounds = \<lparr>rect_left = 0, rect_top = 100, rect_right = 300, rect_bottom = 500\<rparr>"

definition ex_enter_1 :: io_entry where
  "ex_enter_1 = \<lparr>io_target = 1, io_time = 1, isIntersecting = True,
     boundingClientRect = \<lparr>rect_left = 0, rect_top = 100, rect_right = 300, rect_bottom = 140\<rparr>,
     rootBounds = ex_rootBounds\<rparr>"

definition ex_exit_1 :: io_entry where
  "ex_exit_1 = \<lparr>io_target = 1, io_time = 2, isIntersecting = False,
     boundingClientRect = \<lparr>rect_left = 0, rect_top = 60, rect_right = 300, rect_bottom = 100\<rparr>,
     rootBounds = ex_rootBounds\<rparr>"

definition ex_enter_2 :: io_entry where
  "ex_enter_2 = \<lparr>io_target = 2, io_time = 3, isIntersecting = True,
     boundingClientRect = \<lparr>rect_left = 0, rect_top = 140, rect_right = 300, rect_bottom = 180\<rparr>,
     rootBounds = ex_rootBounds\<rparr>"

definition ex_enter_9 :: io_entry where
  "ex_enter_9 = \<lparr>io_target = 9, io_time = 4, isIntersecting = True,
     boundingClientRect = \<lparr>rect_left = 0, rect_top = 180, rect_right = 300, rect_bottom = 220\<rparr>,
     rootBounds = ex_rootBounds\<rparr>"

text \<open>The handle after element 1 was mounted as item 0, and after that batch.\<close>

definition ex_mounted_1 :: handle_state where
  "ex_mounted_1 = observe 1 0 handle_init"

definition ex_after_flyby :: handle_state where
  "ex_after_flyby = fst (io_callback ex_props ex_root ex_mounted_1 [ex_enter_1, ex_exit_1])"

text \<open>
  Element 1, still intersecting at time 3/2 while it leaves the root, and the handle
  after a batch in which element 1 has entered and stays in view.
\<close>

definition ex_leaving_1 :: io_entry where
  "ex_leaving_1 = \<lparr>io_target = 1, io_time = 3 / 2, isIntersecting = True,
     boundingClientRect = \<lparr>rect_left = 0, rect_top = 80, rect_right = 300, rect_bottom = 120\<rparr>,
     rootBounds = ex_rootBounds\<rparr>"

definition ex_viewing_1 :: handle_state where
  "ex_viewing_1 = fst (io_callback ex_props ex_root ex_mounted_1 [ex_enter_1])"

text \<open>The handle when element 1 comes back into view while the timer is running.\<close>

definition ex_back_in_view :: handle_state where
  "ex_back_in_view = fst (io_callback ex_props ex_root ex_after_flyby [ex_enter_1])"

text \<open>The handle after elements 1 and 2 were mounted as items 5 and 6.\<close>

definition ex_mounted_1_2 :: handle_state where
  "ex_mounted_1_2 = observe 2 6 (observe 1 5 handle_init)"

text \<open>
  A render: six children of which four are valid, the visible range \<open>[2, 2]\<close>, a
  margin of 1, item 3 still unmeasured; once with a viewport of 40 and once before the
  viewport has been measured.
\<close>

definition ex_window_props :: list_props where
  "ex_window_props = \<lparr>itemMargin = 1, horizontal = False, reverse = False, endThreshold = 0,
                      onEndReached = True\<rparr>"

definition ex_view :: store_view where
  "ex_view = \<lparr>getScrollSize = 160, getStartIndex = 2, getEndIndex = 2, getViewportWidth = 100,
      getViewportHeight = 40, getViewportSize = 40,
      getJump = \<lparr>jump_start = 0, jump_end = 0\<rparr>,
      getItemOffset = (\<lambda>i. 40 * real_of_int i),
      getIsItemHeightUnCached = (\<lambda>i. i = 3)\<rparr>"

definition ex_view_unsized :: store_view where
  "ex_view_unsized = ex_view\<lparr>getViewportHeight := 0, getViewportSize := 0\<rparr>"

definition ex_children :: "nat child list" where
  "ex_children = [Element None 10, Null, Element (Some ''k'') 11, Boolean True,
                  Element None 12, Element None 13]"

text \<open>
  A history of the \<^verbatim>\<open>onEndReached\<close> effect: with 10 items the end is reached, left and
  reached again; the list grows to 20 items and its end is reached; it shrinks back to
  10 items.
\<close>

definition ex_history :: "(list_props \<times> int \<times> int) list" where
  "ex_history = [(ex_window_props, 10, 3), (ex_window_props, 10, 9), (ex_window_props, 10, 8),
                 (ex_window_props, 10, 9), (ex_window_props, 20, 19), (ex_window_props, 10, 9)]"

section \<open>Properties\<close>

subsection \<open>Helper facts\<close>

lemma addScroll_zero: "addScroll p 0 rootEl = rootEl"
  by (simp add: addScroll_def)

lemma scrollPos_addScroll: "scrollPos p (addScroll p d rootEl) = scrollPos p rootEl + d"
  by (simp add: scrollPos_def addScroll_def)

text \<open>The element count is the number of valid children.\<close>

lemma countLoop_closed: "countLoop i cs = i + int (length (filter (\<lambda>e. \<not> isInvalidElement e) cs))"
  by (induction cs arbitrary: i) auto

lemma countLoop_ge: "i \<le> countLoop i cs"
  by (simp add: countLoop_closed)

lemma valid_is_Element: "\<not> isInvalidElement e \<Longrightarrow> \<exists>k x. e = Element k x"
  by (cases e) (simp_all add: isInvalidElement_def)

lemma itemsLoop_indices:
  "map item_index (itemsLoop p lo hi i cs) = [max lo (i + 1) .. min hi (countLoop i cs)]"
proof (induction cs arbitrary: i)
  case Nil
  show ?case by simp
next
  case (Cons e es)
  show ?case
  proof (cases "isInvalidElement e")
    case True
    then show ?thesis using Cons.IH [of i] by simp
  next
    case False
    then obtain k x where e: "e = Element k x" using valid_is_Element by blast
    have ge: "i + 1 \<le> countLoop (i + 1) es" by (rule countLoop_ge)
    consider (below) "i + 1 < lo" | (above) "i + 1 > hi" | (inside) "lo \<le> i + 1" "i + 1 \<le> hi"
      by linarith
    then show ?thesis
    proof cases
      case below
      then have "max lo (i + 1 + 1) = max lo (i + 1)" by simp
      then show ?thesis using False below Cons.IH [of "i + 1"] by simp
    next
      case above
      then show ?thesis using False Cons.IH [of "i + 1"] by simp
    next
      case inside
      have m: "max lo (i + 1 + 1) = i + 1 + 1" "max lo (i + 1) = i + 1" using inside by simp_all
      have le: "i + 1 \<le> min hi (countLoop (i + 1) es)" using inside ge by simp
      have "[i + 1 .. min hi (countLoop (i + 1) es)] = (i + 1) # [i + 1 + 1 .. min hi (countLoop (i + 1) es)]"
        using le by (rule upto_rec1)
      then show ?thesis using False inside e m Cons.IH [of "i + 1"] by simp
    qed
  qed
qed

lemma max_util_max: "max_util a b = max a b"
  by (simp add: max_util_def max_def)

lemma min_util_min: "min_util a b = min a b"
  by (simp add: min_util_def min_def)

lemma items_indices:
  "map item_index (items p st children) =
     [max (getStartIndex st - itemMargin p) 0 .. min (getEndIndex st + itemMargin p) (childCount children - 1)]"
proof -
  have c: "countLoop (- 1) children = childCount children - 1"
    by (simp add: childCount_def countLoop_closed)
  have lo: "max (startIndexWithMargin p st) (- 1 + 1) = max (getStartIndex st - itemMargin p) 0"
    by (simp add: startIndexWithMargin_def max_util_max)
  have hi: "min (endIndexWithMargin p st (childCount children)) (childCount children - 1)
              = min (getEndIndex st + itemMargin p) (childCount children - 1)"
    by (simp add: endIndexWithMargin_def min_util_min)
  show ?thesis
    unfolding items_def itemsLoop_indices c lo hi ..
qed

text \<open>
  The invariant of the \<^verbatim>\<open>onEndReached\<close> effect: every logged call was made at a count
  that does not exceed the ref, saw the ref already set to that count, and no count
  was logged twice.
\<close>

lemma endReachedEffect_unfold:
  "endReachedEffect p count endIndex s =
     (if onEndReached p \<and> count - 1 - endIndex \<le> endThreshold p \<and> onEndReachedCalledIndex s < count
      then s\<lparr>onEndReachedCalledIndex := count, endReachedCalls := endReachedCalls s @ [(count, count)]\<rparr>
      else s)"
  by (simp add: endReachedEffect_def Let_def)

lemma endReachedEffect_inv:
  assumes "\<forall>c \<in> set (endReachedCalls s). fst c \<le> onEndReachedCalledIndex s \<and> snd c = fst c"
    and "distinct (map fst (endReachedCalls s))"
  shows "(\<forall>c \<in> set (endReachedCalls (endReachedEffect p count endIndex s)).
            fst c \<le> onEndReachedCalledIndex (endReachedEffect p count endIndex s) \<and> snd c = fst c)
         \<and> distinct (map fst (endReachedCalls (endReachedEffect p count endIndex s)))"
proof (cases "onEndReached p \<and> count - 1 - endIndex \<le> endThreshold p \<and> onEndReachedCalledIndex s < count")
  case False
  then have "endReachedEffect p count endIndex s = s" by (simp add: endReachedEffect_unfold)
  then show ?thesis using assms by simp
next
  case True
  then have lt: "onEndReachedCalledIndex s < count" by simp
  have eq: "endReachedEffect p count endIndex s =
      s\<lparr>onEndReachedCalledIndex := count, endReachedCalls := endReachedCalls s @ [(count, count)]\<rparr>"
    using True by (simp add: endReachedEffect_unfold)
  have le: "fst c \<le> count \<and> snd c = fst c \<and> fst c \<noteq> count" if "c \<in> set (endReachedCalls s)" for c
  proof -
    have "fst c \<le> onEndReachedCalledIndex s \<and> snd c = fst c" using assms(1) that by blast
    with lt show ?thesis by simp
  qed
  have fresh: "count \<notin> fst ` set (endReachedCalls s)"
    using le by blast
  have "\<forall>c \<in> set (endReachedCalls s @ [(count, count)]). fst c \<le> count \<and> snd c = fst c"
    using le by auto
  moreover have "distinct (map fst (endReachedCalls s @ [(count, count)]))"
    using fresh assms(2) by simp
  ultimately show ?thesis unfolding eq by simp
qed

lemma endReachedEffects_inv:
  assumes "\<forall>c \<in> set (endReachedCalls s). fst c \<le> onEndReachedCalledIndex s \<and> snd c = fst c"
    and "distinct (map fst (endReachedCalls s))"
  shows "(\<forall>c \<in> set (endReachedCalls (endReachedEffects runs s)).
            fst c \<le> onEndReachedCalledIndex (endReachedEffects runs s) \<and> snd c = fst c)
         \<and> distinct (map fst (endReachedCalls (endReachedEffects runs s)))"
  using assms
proof (induction runs arbitrary: s)
  case Nil
  then show ?case by simp
next
  case (Cons r rs)
  obtain p count endIndex where r: "r = (p, count, endIndex)" by (cases r)
  show ?case
    unfolding r endReachedEffects.simps
    by (rule Cons.IH) (use endReachedEffect_inv [OF Cons.prems] in blast)+
qed

lemma distinct_map_filter_le1:
  "distinct (map f xs) \<Longrightarrow> length (filter (\<lambda>x. f x = c) xs) \<le> 1"
proof (induction xs)
  case Nil
  show ?case by simp
next
  case (Cons x xs)
  show ?case
  proof (cases "f x = c")
    case True
    have "f x \<notin> f ` set xs" using Cons.prems by simp
    then have "\<forall>y \<in> set xs. f y \<noteq> c" using True by blast
    then have "filter (\<lambda>x. f x = c) xs = []" by (simp add: filter_empty_conv)
    then show ?thesis using True by simp
  next
    case False
    then show ?thesis using Cons by simp
  qed
qed

text \<open>
  The loop of the resize observer, from any accumulator: the viewport messages, and the
  sizes and indexes of the observations of mounted items, in the order of the entries.
\<close>

lemma ro_fold:
  "foldl (ro_entry_step p wrapper s) (sent, sizes, indexes) entries =
     (sent @ map (\<lambda>e. UPDATE_VIEWPORT_SIZE (contentRect_width e) (contentRect_height e))
               (filter (\<lambda>e. ro_target e = wrapper) entries),
      sizes @ map fst (List.map_filter (\<lambda>e. if ro_target e = wrapper then None
                 else map_option (Pair (if horizontal p then contentRect_width e else contentRect_height e))
                        (mountedIndexes s (ro_target e))) entries),
      indexes @ map snd (List.map_filter (\<lambda>e. if ro_target e = wrapper then None
                 else map_option (Pair (if horizontal p then contentRect_width e else contentRect_height e))
                        (mountedIndexes s (ro_target e))) entries))"
proof (induction entries arbitrary: sent sizes indexes)
  case Nil
  show ?case by (simp add: List.map_filter_simps)
next
  case (Cons e es)
  show ?case
  proof (cases "ro_target e = wrapper")
    case True
    then show ?thesis
      using Cons.IH by (simp add: ro_entry_step_def List.map_filter_simps)
  next
    case False
    then show ?thesis
      using Cons.IH by (cases "mountedIndexes s (ro_target e)") (simp_all add: ro_entry_step_def List.map_filter_simps)
  qed
qed

lemma filter_isItemSizes_viewport:
  "filter isItemSizes (map (\<lambda>e. UPDATE_VIEWPORT_SIZE (f e) (g e)) es) = []"
  by (induction es) simp_all

text \<open>
  The loop of the intersection observer changes neither \<^verbatim>\<open>mountedIndexes\<close> nor the
  timer; \<^verbatim>\<open>latestEntry\<close> ends as the first entry of greatest time among the entries
  whose target is mounted.
\<close>

lemma io_entry_step_keeps:
  "mountedIndexes (snd (io_entry_step (l, s) e)) = mountedIndexes s
   \<and> requestSyncTimer (snd (io_entry_step (l, s) e)) = requestSyncTimer s"
  by (simp add: io_entry_step_def split: option.split)

lemma io_entry_step_latest:
  "fst (io_entry_step (l, s) e) =
     (if (case l of None \<Rightarrow> True | Some l' \<Rightarrow> io_time l' < io_time e)
         \<and> mountedIndexes s (io_target e) \<noteq> None then Some e else l)"
  by (simp add: io_entry_step_def)

lemma io_fold_keeps:
  "mountedIndexes (snd (foldl io_entry_step (l, s) es)) = mountedIndexes s
   \<and> requestSyncTimer (snd (foldl io_entry_step (l, s) es)) = requestSyncTimer s"
proof (induction es arbitrary: l s)
  case Nil
  show ?case by simp
next
  case (Cons e es)
  obtain l1 s1 where st: "io_entry_step (l, s) e = (l1, s1)" by (cases "io_entry_step (l, s) e")
  have "mountedIndexes s1 = mountedIndexes s \<and> requestSyncTimer s1 = requestSyncTimer s"
    using io_entry_step_keeps [of l s e] st by simp
  then show ?case using Cons.IH [of l1 s1] st by simp
qed

lemma io_fold_latest:
  "(fst (foldl io_entry_step (None, s) es) = None
      \<longrightarrow> (\<forall>x \<in> set es. mountedIndexes s (io_target x) = None))
   \<and> (\<forall>e. fst (foldl io_entry_step (None, s) es) = Some e
      \<longrightarrow> (\<exists>pre post. es = pre @ e # post \<and> mountedIndexes s (io_target e) \<noteq> None
            \<and> (\<forall>x \<in> set pre. mountedIndexes s (io_target x) \<noteq> None \<longrightarrow> io_time x < io_time e)
            \<and> (\<forall>x \<in> set post. mountedIndexes s (io_target x) \<noteq> None \<longrightarrow> io_time x \<le> io_time e)))"
proof (induction es rule: rev_induct)
  case Nil
  show ?case by simp
next
  case (snoc x es)
  obtain l s1 where f: "foldl io_entry_step (None, s) es = (l, s1)"
    by (cases "foldl io_entry_step (None, s) es")
  have m: "mountedIndexes s1 = mountedIndexes s"
    using io_fold_keeps [of None s es] f by simp
  have step: "fst (foldl io_entry_step (None, s) (es @ [x])) =
     (if (case l of None \<Rightarrow> True | Some l' \<Rightarrow> io_time l' < io_time x)
         \<and> mountedIndexes s (io_target x) \<noteq> None then Some x else l)"
    using f m by (simp add: io_entry_step_latest)
  show ?case
  proof (cases "(case l of None \<Rightarrow> True | Some l' \<Rightarrow> io_time l' < io_time x)
         \<and> mountedIndexes s (io_target x) \<noteq> None")
    case True
    then have new: "fst (foldl io_entry_step (None, s) (es @ [x])) = Some x" using step by simp
    have before: "\<forall>y \<in> set es. mountedIndexes s (io_target y) \<noteq> None \<longrightarrow> io_time y < io_time x"
    proof (cases l)
      case None
      then show ?thesis using snoc.IH f by simp
    next
      case (Some l')
      then have lt: "io_time l' < io_time x" using True by simp
      obtain pre post where pp: "es = pre @ l' # post"
        "\<forall>y \<in> set pre. mountedIndexes s (io_target y) \<noteq> None \<longrightarrow> io_time y < io_time l'"
        "\<forall>y \<in> set post. mountedIndexes s (io_target y) \<noteq> None \<longrightarrow> io_time y \<le> io_time l'"
        using snoc.IH f Some by auto
      show ?thesis
      proof
        fix y assume "y \<in> set es"
        then consider "y \<in> set pre" | "y = l'" | "y \<in> set post" using pp(1) by auto
        then show "mountedIndexes s (io_target y) \<noteq> None \<longrightarrow> io_time y < io_time x"
          using pp(2,3) lt by cases fastforce+
      qed
    qed
    have "es @ [x] = es @ x # []" by simp
    then have "\<exists>pre post. es @ [x] = pre @ x # post \<and> mountedIndexes s (io_target x) \<noteq> None
            \<and> (\<forall>y \<in> set pre. mountedIndexes s (io_target y) \<noteq> None \<longrightarrow> io_time y < io_time x)
            \<and> (\<forall>y \<in> set post. mountedIndexes s (io_target y) \<noteq> None \<longrightarrow> io_time y \<le> io_time x)"
      using before True by (intro exI [of _ es] exI [of _ "[]"]) simp
    then show ?thesis using new by simp
  next
    case False
    then have same: "fst (foldl io_entry_step (None, s) (es @ [x])) = l" using step by auto
    show ?thesis
    proof (cases l)
      case None
      then have "mountedIndexes s (io_target x) = None" using False by simp
      then show ?thesis using same None snoc.IH f by simp
    next
      case (Some l')
      then have le: "mountedIndexes s (io_target x) \<noteq> None \<longrightarrow> io_time x \<le> io_time l'"
        using False by auto
      obtain pre post where pp: "es = pre @ l' # post" "mountedIndexes s (io_target l') \<noteq> None"
        "\<forall>y \<in> set pre. mountedIndexes s (io_target y) \<noteq> None \<longrightarrow> io_time y < io_time l'"
        "\<forall>y \<in> set post. mountedIndexes s (io_target y) \<noteq> None \<longrightarrow> io_time y \<le> io_time l'"
        using snoc.IH f Some by auto
      have "es @ [x] = pre @ l' # (post @ [x])" using pp(1) by simp
      moreover have "\<forall>y \<in> set (post @ [x]). mountedIndexes s (io_target y) \<noteq> None \<longrightarrow> io_time y \<le> io_time l'"
        using pp(4) le by simp
      ultimately have "\<exists>pre post. es @ [x] = pre @ l' # post \<and> mountedIndexes s (io_target l') \<noteq> None
            \<and> (\<forall>y \<in> set pre. mountedIndexes s (io_target y) \<noteq> None \<longrightarrow> io_time y < io_time l')
            \<and> (\<forall>y \<in> set post. mountedIndexes s (io_target y) \<noteq> None \<longrightarrow> io_time y \<le> io_time l')"
        using pp(2,3) by blast
      then show ?thesis using same Some by simp
    qed
  qed
qed

lemma io_callback_viewedCount:
  "viewedCount (fst (io_callback p rootEl s entries)) = viewedCount (snd (foldl io_entry_step (None, s) entries))"
  by (simp add: io_callback_def split: prod.split option.split)

text \<open>What a firing of the timer of \<^verbatim>\<open>requestSync\<close> does, and what successive firings do.\<close>

lemma requestSync_fire_idle:
  "viewedCount s = 0 \<Longrightarrow> requestSyncTimer s = Some ms \<Longrightarrow>
   requestSync_fire p rootEl s = (s\<lparr>requestSyncTimer := Some 200\<rparr>, [syncViewportToScrollPosition p rootEl])"
  by (simp add: requestSync_fire_def debounce_call_def)

lemma requestSync_fire_viewed:
  "viewedCount s \<noteq> 0 \<Longrightarrow> requestSyncTimer s = Some ms \<Longrightarrow>
   requestSync_fire p rootEl s = (s\<lparr>requestSyncTimer := None\<rparr>, [])"
  by (simp add: requestSync_fire_def)

lemma requestSync_fire_unarmed:
  "requestSyncTimer s = None \<Longrightarrow> requestSync_fire p rootEl s = (s, [])"
  by (simp add: requestSync_fire_def)

lemma requestSync_fires_idle:
  "viewedCount s = 0 \<Longrightarrow> requestSyncTimer s = Some ms \<Longrightarrow>
   requestSync_fires p rs s =
     (if rs = [] then s else s\<lparr>requestSyncTimer := Some 200\<rparr>, map (syncViewportToScrollPosition p) rs)"
proof (induction rs arbitrary: s ms)
  case Nil
  show ?case by simp
next
  case (Cons r rs)
  have f: "requestSync_fire p r s = (s\<lparr>requestSyncTimer := Some 200\<rparr>, [syncViewportToScrollPosition p r])"
    using Cons.prems by (rule requestSync_fire_idle)
  have "requestSync_fires p rs (s\<lparr>requestSyncTimer := Some 200\<rparr>) =
     (if rs = [] then s\<lparr>requestSyncTimer := Some 200\<rparr> else s\<lparr>requestSyncTimer := Some 200\<rparr>\<lparr>requestSyncTimer := Some 200\<rparr>,
      map (syncViewportToScrollPosition p) rs)"
    by (rule Cons.IH [of "s\<lparr>requestSyncTimer := Some 200\<rparr>" 200]) (use Cons.prems in simp_all)
  then show ?case using f by simp
qed

lemma requestSync_fires_unarmed:
  "requestSyncTimer s = None \<Longrightarrow> requestSync_fires p rs s = (s, [])"
  by (induction rs arbitrary: s) (simp_all add: requestSync_fire_unarmed)

lemma requestSync_fires_viewed:
  "viewedCount s \<noteq> 0 \<Longrightarrow> 
   requestSync_fires p rs s = (if rs = [] then s else s\<lparr>requestSyncTimer := None\<rparr>, [])"
proof (cases rs)
  case Nil
  then show ?thesis by simp
next
  case (Cons r rs')
  assume v: "viewedCount s \<noteq> 0"
  show ?thesis
  proof (cases "requestSyncTimer s")
    case None
    then have "s\<lparr>requestSyncTimer := None\<rparr> = s" by simp
    then show ?thesis using None Cons requestSync_fires_unarmed [of s p rs] by simp
  next
    case (Some ms)
    have "requestSync_fire p r s = (s\<lparr>requestSyncTimer := None\<rparr>, [])"
      using v Some by (rule requestSync_fire_viewed)
    then show ?thesis using Cons requestSync_fires_unarmed [of "s\<lparr>requestSyncTimer := None\<rparr>" p rs'] by simp
  qed
qed

lemma io_callback_empty:
  "viewedCount (fst (io_callback p rootEl s entries)) = 0 \<Longrightarrow>
   snd (io_callback p rootEl s entries) = [syncViewportToScrollPosition p rootEl]
   \<and> requestSyncTimer (fst (io_callback p rootEl s entries)) = Some 200"
  by (auto simp add: io_callback_def debounce_call_def split: prod.splits option.splits if_splits)

text \<open>
  A batch without a repeated enter keeps the counter in step with the set of
  intersecting mounted items; a counter in step is 0 exactly when the set is empty.
\<close>

lemma io_entry_step_snd:
  "snd (io_entry_step (l, s) e) = snd (io_entry_step (None, s) e)"
  by (simp add: io_entry_step_def)

lemma io_entry_step_inStep:
  assumes "counterInStep s"
    and "(isIntersecting e \<and> mountedIndexes s (io_target e) \<noteq> None
           \<and> viewedIndexes s (io_target e) \<noteq> None) = False"
  shows "counterInStep (snd (io_entry_step (l, s) e))"
proof -
  have fin: "finite (dom (viewedIndexes s))"
    and cnt: "viewedCount s = int (card (dom (viewedIndexes s)))"
    using assms(1) by (simp_all add: counterInStep_def)
  show ?thesis
  proof (cases "isIntersecting e")
    case True
    show ?thesis
    proof (cases "mountedIndexes s (io_target e)")
      case None
      then show ?thesis using True assms(1) by (simp add: io_entry_step_def)
    next
      case (Some i)
      then have fresh: "io_target e \<notin> dom (viewedIndexes s)" using True assms(2) by auto
      have "card (insert (io_target e) (dom (viewedIndexes s))) = Suc (card (dom (viewedIndexes s)))"
        using fin fresh by simp
      then show ?thesis using True Some fin cnt
        by (simp add: io_entry_step_def counterInStep_def)
    qed
  next
    case False
    show ?thesis
    proof (cases "viewedIndexes s (io_target e)")
      case None
      then show ?thesis using False assms(1) by (simp add: io_entry_step_def)
    next
      case (Some i)
      then have mem: "io_target e \<in> dom (viewedIndexes s)" by auto
      then have pos: "0 < card (dom (viewedIndexes s))" using fin by (auto simp add: card_gt_0_iff)
      have "card (dom (viewedIndexes s) - {io_target e}) = card (dom (viewedIndexes s)) - 1"
        using fin mem by simp
      then have "int (card (dom (viewedIndexes s) - {io_target e})) = int (card (dom (viewedIndexes s))) - 1"
        using pos by simp
      then show ?thesis using False Some fin cnt
        by (simp add: io_entry_step_def counterInStep_def)
    qed
  qed
qed

lemma io_fold_inStep:
  "counterInStep s \<Longrightarrow> noRepeatedEnter s es \<Longrightarrow> counterInStep (snd (foldl io_entry_step (l, s) es))"
proof (induction es arbitrary: l s)
  case Nil
  then show ?case by simp
next
  case (Cons e es)
  obtain l1 s1 where st: "io_entry_step (l, s) e = (l1, s1)" by (cases "io_entry_step (l, s) e")
  have s1: "s1 = snd (io_entry_step (None, s) e)"
    using st io_entry_step_snd [of l s e] by simp
  have a: "(isIntersecting e \<and> mountedIndexes s (io_target e) \<noteq> None
           \<and> viewedIndexes s (io_target e) \<noteq> None) = False"
    and b: "noRepeatedEnter s1 es"
    using Cons.prems(2) s1 by simp_all
  have "counterInStep s1"
    using io_entry_step_inStep [OF Cons.prems(1) a, of l] st by simp
  then have "counterInStep (snd (foldl io_entry_step (l1, s1) es))"
    using b by (rule Cons.IH)
  then show ?case using st by simp
qed

lemma io_callback_viewedIndexes:
  "viewedIndexes (fst (io_callback p rootEl s entries)) = viewedIndexes (snd (foldl io_entry_step (None, s) entries))"
  by (simp add: io_callback_def split: prod.split option.split)

lemma io_callback_inStep:
  assumes "counterInStep s" and "noRepeatedEnter s entries"
  shows "counterInStep (fst (io_callback p rootEl s entries))"
proof -
  have "counterInStep (snd (foldl io_entry_step (None, s) entries))"
    using assms by (rule io_fold_inStep)
  then show ?thesis
    by (simp add: counterInStep_def io_callback_viewedIndexes io_callback_viewedCount)
qed

lemma inStep_empty_iff:
  "counterInStep t \<Longrightarrow> (dom (viewedIndexes t) = {}) = (viewedCount t = 0)"
  by (auto simp add: counterInStep_def)

subsection \<open>C1: the offset issued by \<^verbatim>\<open>scrollTo\<close>\<close>

text \<open>
  Claim C1. For every index passed to \<^verbatim>\<open>scrollTo(index)\<close> (the host container being
  mounted, so that a scroll is issued at all), the value assigned is
  \<^verbatim>\<open>getItemOffset(index)\<close>, replaced by \<open>totalSize - viewportExtent\<close> whenever
  \<open>offset + viewportExtent \<ge> totalSize\<close> (that is, the minimum of the two), and
  negated when the layout is reversed; it is assigned to \<^verbatim>\<open>scrollLeft\<close> when
  horizontal and to \<^verbatim>\<open>scrollTop\<close> otherwise.
\<close>

theorem scrollTo_issues_clamped_signed_offset:
  "scrollTo p st (Some rootEl) index =
     (let off = getItemOffset st index;
          clamped = (if off + getViewportSize st \<ge> getScrollSize st
                     then getScrollSize st - getViewportSize st else off);
          issued = (if reverse p then - clamped else clamped)
      in Some (if horizontal p then rootEl\<lparr>scrollLeft := issued\<rparr>
               else rootEl\<lparr>scrollTop := issued\<rparr>))
   \<and> (if getItemOffset st index + getViewportSize st \<ge> getScrollSize st
        then getScrollSize st - getViewportSize st else getItemOffset st index)
      = min (getItemOffset st index) (getScrollSize st - getViewportSize st)"
proof -
  have "getScrollSize st - (getItemOffset st index + getViewportSize st) \<le> 0
        \<longleftrightarrow> getItemOffset st index + getViewportSize st \<ge> getScrollSize st"
    by linarith
  then have "scrollTo p st (Some rootEl) index =
     (let off = getItemOffset st index;
          clamped = (if off + getViewportSize st \<ge> getScrollSize st
                     then getScrollSize st - getViewportSize st else off);
          issued = (if reverse p then - clamped else clamped)
      in Some (if horizontal p then rootEl\<lparr>scrollLeft := issued\<rparr>
               else rootEl\<lparr>scrollTop := issued\<rparr>))"
    by (simp add: scrollTo_def Let_def)
  moreover have "(if getItemOffset st index + getViewportSize st \<ge> getScrollSize st
        then getScrollSize st - getViewportSize st else getItemOffset st index)
      = min (getItemOffset st index) (getScrollSize st - getViewportSize st)"
    by (simp add: min_def)
  ultimately show ?thesis by blast
qed

text \<open>
  An instance: offsets \<open>40 * i\<close>, total size 400, viewport 100, vertical and reversed.
  Index 9 has offset 360, which is clamped to 300 and issued as \<open>-300\<close>.
\<close>

theorem scrollTo_issues_clamped_signed_offset_witness:
  "scrollTo \<lparr>itemMargin = 6, horizontal = False, reverse = True, endThreshold = 0,
             onEndReached = False\<rparr>
     \<lparr>getScrollSize = 400, getStartIndex = 0, getEndIndex = 2, getViewportWidth = 100,
      getViewportHeight = 100, getViewportSize = 100,
      getJump = \<lparr>jump_start = 0, jump_end = 0\<rparr>,
      getItemOffset = (\<lambda>i. 40 * real_of_int i), getIsItemHeightUnCached = (\<lambda>i. False)\<rparr>
     (Some \<lparr>scrollLeft = 0, scrollTop = 0\<rparr>) 9
   = Some \<lparr>scrollLeft = 0, scrollTop = - 300\<rparr>"
  using scrollTo_issues_clamped_signed_offset
    [of "\<lparr>itemMargin = 6, horizontal = False, reverse = True, endThreshold = 0,
           onEndReached = False\<rparr>"
        "\<lparr>getScrollSize = 400, getStartIndex = 0, getEndIndex = 2, getViewportWidth = 100,
          getViewportHeight = 100, getViewportSize = 100,
          getJump = \<lparr>jump_start = 0, jump_end = 0\<rparr>,
          getItemOffset = (\<lambda>i. 40 * real_of_int i), getIsItemHeightUnCached = (\<lambda>i. False)\<rparr>"
        "\<lparr>scrollLeft = 0, scrollTop = 0\<rparr>" 9]
  by simp

subsection \<open>C2: the start correction\<close>

text \<open>
  Claim C2. For every pending jump, the start correction is applied by adding
  \<^verbatim>\<open>jump._start\<close> to the native scroll offset of the host container, except when the
  window starts at index 0 (\<^verbatim>\<open>startIndex === 0\<close>) and the native scroll offset is
  exactly 0, in which case the container is left as it is. (When \<^verbatim>\<open>jump._start\<close> is
  0 the code skips the assignment, which is the same as adding 0.) The effect does
  nothing while the host container is not mounted, and otherwise runs the start
  correction first.
\<close>

theorem jump_start_added_unless_at_start_edge:
  "applyJumpStart p st rootEl =
     (if getStartIndex st = 0 \<and> scrollPos p rootEl = 0 then rootEl
      else addScroll p (jump_start (getJump st)) rootEl)
   \<and> scrollPos p (applyJumpStart p st rootEl) =
     (if getStartIndex st = 0 \<and> scrollPos p rootEl = 0 then scrollPos p rootEl
      else scrollPos p rootEl + jump_start (getJump st))
   \<and> jumpEffect p st count (Some rootEl) =
       Some (applyJumpEnd p st count (applyJumpStart p st rootEl))
   \<and> jumpEffect p st count None = None"
proof -
  have a: "applyJumpStart p st rootEl =
     (if getStartIndex st = 0 \<and> scrollPos p rootEl = 0 then rootEl
      else addScroll p (jump_start (getJump st)) rootEl)"
    by (cases "jump_start (getJump st) = 0") (simp_all add: applyJumpStart_def addScroll_zero)
  have b: "scrollPos p (applyJumpStart p st rootEl) =
     (if getStartIndex st = 0 \<and> scrollPos p rootEl = 0 then scrollPos p rootEl
      else scrollPos p rootEl + jump_start (getJump st))"
    unfolding a by (simp add: scrollPos_addScroll)
  show ?thesis using a b by (simp add: jumpEffect_def)
qed

text \<open>
  An instance: a vertical list whose window starts at index 3, scrolled to 120, with a
  pending start correction of 40: the container ends at 160.
\<close>

theorem jump_start_added_unless_at_start_edge_witness:
  "scrollPos \<lparr>itemMargin = 6, horizontal = False, reverse = False, endThreshold = 0,
              onEndReached = False\<rparr>
     (applyJumpStart \<lparr>itemMargin = 6, horizontal = False, reverse = False, endThreshold = 0,
              onEndReached = False\<rparr>
       \<lparr>getScrollSize = 400, getStartIndex = 3, getEndIndex = 5, getViewportWidth = 100,
        getViewportHeight = 100, getViewportSize = 100,
        getJump = \<lparr>jump_start = 40, jump_end = 0\<rparr>,
        getItemOffset = (\<lambda>i. 40 * real_of_int i), getIsItemHeightUnCached = (\<lambda>i. False)\<rparr>
       \<lparr>scrollLeft = 0, scrollTop = 120\<rparr>) = 160"
  using jump_start_added_unless_at_start_edge
    [of "\<lparr>itemMargin = 6, horizontal = False, reverse = False, endThreshold = 0,
           onEndReached = False\<rparr>"
        "\<lparr>getScrollSize = 400, getStartIndex = 3, getEndIndex = 5, getViewportWidth = 100,
          getViewportHeight = 100, getViewportSize = 100,
          getJump = \<lparr>jump_start = 40, jump_end = 0\<rparr>,
          getItemOffset = (\<lambda>i. 40 * real_of_int i), getIsItemHeightUnCached = (\<lambda>i. False)\<rparr>"
        "\<lparr>scrollLeft = 0, scrollTop = 120\<rparr>" 10]
  by (simp add: scrollPos_def addScroll_def)

subsection \<open>C3: the end correction\<close>

text \<open>
  Claim C3. For every pending jump, \<^verbatim>\<open>jump._end\<close> is added to the native scroll offset
  only when the window includes the last index (\<open>endIndex = count - 1\<close>) and excludes
  the first (\<open>startIndex \<noteq> 0\<close>); in every other window configuration the container
  is left as the start correction left it.
\<close>

theorem jump_end_added_only_at_end_edge:
  "applyJumpEnd p st count rootEl =
     (if getEndIndex st = count - 1 \<and> getStartIndex st \<noteq> 0
      then addScroll p (jump_end (getJump st)) rootEl else rootEl)
   \<and> scrollPos p (applyJumpEnd p st count rootEl) =
     (if getEndIndex st = count - 1 \<and> getStartIndex st \<noteq> 0
      then scrollPos p rootEl + jump_end (getJump st) else scrollPos p rootEl)"
proof -
  have a: "applyJumpEnd p st count rootEl =
     (if getEndIndex st = count - 1 \<and> getStartIndex st \<noteq> 0
      then addScroll p (jump_end (getJump st)) rootEl else rootEl)"
    by (cases "jump_end (getJump st) = 0") (auto simp add: applyJumpEnd_def addScroll_zero)
  show ?thesis unfolding a by (simp add: scrollPos_addScroll)
qed

text \<open>
  An instance: a horizontal list of 10 items whose window is \<open>[6, 9]\<close>, scrolled to 250,
  with a pending end correction of \<open>-15\<close>: the container ends at 235.
\<close>

theorem jump_end_added_only_at_end_edge_witness:
  "applyJumpEnd \<lparr>itemMargin = 6, horizontal = True, reverse = True, endThreshold = 0,
              onEndReached = False\<rparr>
       \<lparr>getScrollSize = 400, getStartIndex = 6, getEndIndex = 9, getViewportWidth = 100,
        getViewportHeight = 100, getViewportSize = 100,
        getJump = \<lparr>jump_start = 0, jump_end = - 15\<rparr>,
        getItemOffset = (\<lambda>i. 40 * real_of_int i), getIsItemHeightUnCached = (\<lambda>i. False)\<rparr>
       10 \<lparr>scrollLeft = 250, scrollTop = 0\<rparr>
   = \<lparr>scrollLeft = 235, scrollTop = 0\<rparr>"
  using jump_end_added_only_at_end_edge
    [of "\<lparr>itemMargin = 6, horizontal = True, reverse = True, endThreshold = 0,
           onEndReached = False\<rparr>"
        "\<lparr>getScrollSize = 400, getStartIndex = 6, getEndIndex = 9, getViewportWidth = 100,
          getViewportHeight = 100, getViewportSize = 100,
          getJump = \<lparr>jump_start = 0, jump_end = - 15\<rparr>,
          getItemOffset = (\<lambda>i. 40 * real_of_int i), getIsItemHeightUnCached = (\<lambda>i. False)\<rparr>"
        10 "\<lparr>scrollLeft = 250, scrollTop = 0\<rparr>"]
  by (simp add: addScroll_def)

subsection \<open>C4: the anchor is the latest entry of a mounted item\<close>

text \<open>
  Claim C4, as amended. For every batch of intersection-observer entries that contains
  an entry whose target is a currently mounted item, and after which the counter of
  viewed items is not 0, exactly one message is issued; it is the anchor update
  (\<open>HANDLE_ITEM_INTERSECTION\<close>) derived from the entry of greatest time stamp among
  the entries whose target is mounted, the first such entry when several share that
  time stamp. Entries of mounted items before it in the batch have a smaller time
  stamp and entries after it have none greater, so no entry with a smaller time stamp
  becomes the anchor.
\<close>

theorem anchor_is_latest_mounted_entry:
  assumes "\<exists>x \<in> set entries. mountedIndexes s (io_target x) \<noteq> None"
    and "viewedCount (fst (io_callback p rootEl s entries)) \<noteq> 0"
  shows "\<exists>pre e post i. entries = pre @ e # post
           \<and> mountedIndexes s (io_target e) = Some i
           \<and> snd (io_callback p rootEl s entries) = [HANDLE_ITEM_INTERSECTION (Some i) (intersectionOffset p e)]
           \<and> (\<forall>x \<in> set pre. mountedIndexes s (io_target x) \<noteq> None \<longrightarrow> io_time x < io_time e)
           \<and> (\<forall>x \<in> set post. mountedIndexes s (io_target x) \<noteq> None \<longrightarrow> io_time x \<le> io_time e)"
proof -
  obtain l s1 where f: "foldl io_entry_step (None, s) entries = (l, s1)"
    by (cases "foldl io_entry_step (None, s) entries")
  have m: "mountedIndexes s1 = mountedIndexes s"
    using io_fold_keeps [of None s entries] f by simp
  have nz: "viewedCount s1 \<noteq> 0" using assms(2) f by (simp add: io_callback_viewedCount)
  have "l \<noteq> None" using io_fold_latest [of s entries] f assms(1) by auto
  then obtain e where l: "l = Some e" by auto
  obtain pre post where pp: "entries = pre @ e # post" "mountedIndexes s (io_target e) \<noteq> None"
      "\<forall>x \<in> set pre. mountedIndexes s (io_target x) \<noteq> None \<longrightarrow> io_time x < io_time e"
      "\<forall>x \<in> set post. mountedIndexes s (io_target x) \<noteq> None \<longrightarrow> io_time x \<le> io_time e"
    using io_fold_latest [of s entries] f l by auto
  obtain i where i: "mountedIndexes s (io_target e) = Some i" using pp(2) by auto
  have "snd (io_callback p rootEl s entries) = [HANDLE_ITEM_INTERSECTION (Some i) (intersectionOffset p e)]"
    using f l nz m i by (simp add: io_callback_def)
  then show ?thesis using pp(1,3,4) i by blast
qed

text \<open>
  An instance: items 5 and 6 are mounted as elements 1 and 2. Element 1 enters at time
  1, element 2 at time 3, element 1 leaves at time 2 and the unmounted element 9 is
  reported at time 4. One item stays in view, and the anchor is item 6, 40 below the
  top of the root.
\<close>

theorem anchor_is_latest_mounted_entry_witness:
  "viewedCount (fst (io_callback ex_props ex_root ex_mounted_1_2
      [ex_enter_1, ex_enter_2, ex_exit_1, ex_enter_9])) = 1
   \<and> snd (io_callback ex_props ex_root ex_mounted_1_2
      [ex_enter_1, ex_enter_2, ex_exit_1, ex_enter_9]) = [HANDLE_ITEM_INTERSECTION (Some 6) 40]"
proof -
  have h1: "\<exists>x \<in> set [ex_enter_1, ex_enter_2, ex_exit_1, ex_enter_9].
              mountedIndexes ex_mounted_1_2 (io_target x) \<noteq> None"
    by (simp add: ex_mounted_1_2_def observe_def ex_enter_1_def)
  have c: "viewedCount (fst (io_callback ex_props ex_root ex_mounted_1_2
      [ex_enter_1, ex_enter_2, ex_exit_1, ex_enter_9])) = 1"
    by (simp add: io_callback_def io_entry_step_def observe_def handle_init_def ex_props_def ex_root_def
        ex_rootBounds_def ex_enter_1_def ex_exit_1_def ex_enter_2_def ex_enter_9_def
        ex_mounted_1_def ex_mounted_1_2_def syncViewportToScrollPosition_def debounce_call_def
        intersectionOffset_def)
  then have h2: "viewedCount (fst (io_callback ex_props ex_root ex_mounted_1_2
      [ex_enter_1, ex_enter_2, ex_exit_1, ex_enter_9])) \<noteq> 0"
    by simp
  have "snd (io_callback ex_props ex_root ex_mounted_1_2
      [ex_enter_1, ex_enter_2, ex_exit_1, ex_enter_9]) = [HANDLE_ITEM_INTERSECTION (Some 6) 40]"
    using anchor_is_latest_mounted_entry [OF h1 h2]
    by (simp add: io_callback_def io_entry_step_def observe_def handle_init_def ex_props_def ex_root_def
        ex_rootBounds_def ex_enter_1_def ex_exit_1_def ex_enter_2_def ex_enter_9_def
        ex_mounted_1_def ex_mounted_1_2_def syncViewportToScrollPosition_def debounce_call_def
        intersectionOffset_def)
  with c show ?thesis by simp
qed

text \<open>
  The claim as stated fails when the counter is back at 0 at the end of the batch:
  item 0 is mounted as element 1 and nothing is in view; element 1 enters at time 1 and
  leaves at time 2 within one batch. A mounted item is intersecting in the batch, but
  the only message is the native scroll offset: no anchor update is issued.
\<close>

theorem anchor_update_counterexample:
  "mountedIndexes ex_mounted_1 (io_target ex_enter_1) = Some 0
   \<and> isIntersecting ex_enter_1
   \<and> viewedCount ex_mounted_1 = 0
   \<and> snd (io_callback ex_props ex_root ex_mounted_1 [ex_enter_1, ex_exit_1]) = [HANDLE_SCROLL 120]
   \<and> filter isItemIntersection
        (snd (io_callback ex_props ex_root ex_mounted_1 [ex_enter_1, ex_exit_1])) = []"
  by (simp add: io_callback_def io_entry_step_def observe_def handle_init_def ex_props_def ex_root_def
        ex_rootBounds_def ex_enter_1_def ex_exit_1_def ex_enter_2_def ex_enter_9_def
        ex_mounted_1_def ex_mounted_1_2_def syncViewportToScrollPosition_def debounce_call_def
        intersectionOffset_def)

subsection \<open>C5: the fallback to the native scroll offset\<close>

text \<open>
  Claim C5, as amended. Whenever a batch of the intersection observer leaves the set of
  intersecting mounted items empty, the counter being in step with the set and no item
  being reported as entering twice, the handle at once reads the native scroll offset
  and issues it as the only message, a \<open>HANDLE_SCROLL\<close> (negated when the layout is
  reversed), and starts the timer of \<^verbatim>\<open>requestSync\<close> with a delay of 200 ms; the
  counter is in step again after the batch. While the set is empty, every firing of
  the timer issues the native offset again and starts the timer again with the same
  delay of 200 ms, for any number of firings: the retry has no bound and no backoff.
  The first firing at which at least one item is intersecting again issues nothing and
  leaves no run pending, so polling stops.
\<close>

theorem resync_polls_while_viewed_set_empty:
  "(counterInStep s \<and> noRepeatedEnter s entries \<longrightarrow>
      counterInStep (fst (io_callback p rootEl s entries)))
   \<and> (counterInStep s \<and> noRepeatedEnter s entries
       \<and> dom (viewedIndexes (fst (io_callback p rootEl s entries))) = {} \<longrightarrow>
      snd (io_callback p rootEl s entries) = [syncViewportToScrollPosition p rootEl]
      \<and> requestSyncTimer (fst (io_callback p rootEl s entries)) = Some 200)
   \<and> syncViewportToScrollPosition p rootEl =
       HANDLE_SCROLL (if reverse p then - scrollPos p rootEl else scrollPos p rootEl)
   \<and> (counterInStep t \<and> dom (viewedIndexes t) = {} \<and> requestSyncTimer t \<noteq> None \<longrightarrow>
        requestSync_fires p rs t =
          (if rs = [] then t else t\<lparr>requestSyncTimer := Some 200\<rparr>,
           map (syncViewportToScrollPosition p) rs))
   \<and> (counterInStep t \<and> dom (viewedIndexes t) \<noteq> {} \<longrightarrow>
        requestSync_fires p rs t = (if rs = [] then t else t\<lparr>requestSyncTimer := None\<rparr>, []))"
proof -
  have a: "counterInStep s \<and> noRepeatedEnter s entries \<longrightarrow>
      counterInStep (fst (io_callback p rootEl s entries))"
    using io_callback_inStep by blast
  have b: "counterInStep s \<and> noRepeatedEnter s entries
       \<and> dom (viewedIndexes (fst (io_callback p rootEl s entries))) = {} \<longrightarrow>
      snd (io_callback p rootEl s entries) = [syncViewportToScrollPosition p rootEl]
      \<and> requestSyncTimer (fst (io_callback p rootEl s entries)) = Some 200"
  proof
    assume h: "counterInStep s \<and> noRepeatedEnter s entries
       \<and> dom (viewedIndexes (fst (io_callback p rootEl s entries))) = {}"
    then have "counterInStep (fst (io_callback p rootEl s entries))" using a by blast
    then have "viewedCount (fst (io_callback p rootEl s entries)) = 0"
      using h inStep_empty_iff by blast
    then show "snd (io_callback p rootEl s entries) = [syncViewportToScrollPosition p rootEl]
      \<and> requestSyncTimer (fst (io_callback p rootEl s entries)) = Some 200"
      by (rule io_callback_empty)
  qed
  have c: "syncViewportToScrollPosition p rootEl =
       HANDLE_SCROLL (if reverse p then - scrollPos p rootEl else scrollPos p rootEl)"
    by (simp add: syncViewportToScrollPosition_def scrollPos_def)
  have d: "counterInStep t \<and> dom (viewedIndexes t) = {} \<and> requestSyncTimer t \<noteq> None \<longrightarrow>
        requestSync_fires p rs t =
          (if rs = [] then t else t\<lparr>requestSyncTimer := Some 200\<rparr>,
           map (syncViewportToScrollPosition p) rs)"
    using requestSync_fires_idle inStep_empty_iff by blast
  have e: "counterInStep t \<and> dom (viewedIndexes t) \<noteq> {} \<longrightarrow>
        requestSync_fires p rs t = (if rs = [] then t else t\<lparr>requestSyncTimer := None\<rparr>, [])"
    using requestSync_fires_viewed inStep_empty_iff by blast
  show ?thesis using a b c d e by blast
qed

text \<open>
  An instance: item 0 is mounted as element 1, which enters and leaves within one
  batch. The set is empty after the batch: the offset 120 is issued and the timer is
  started. Three firings later, with the container at 130, 500 and 500, three more
  offsets have been issued and the timer is still running. When element 1 is back in
  view, the next firing issues nothing and the timer is not started again.
\<close>

theorem resync_polls_while_viewed_set_empty_witness:
  "counterInStep ex_mounted_1
   \<and> noRepeatedEnter ex_mounted_1 [ex_enter_1, ex_exit_1]
   \<and> dom (viewedIndexes ex_after_flyby) = {}
   \<and> snd (io_callback ex_props ex_root ex_mounted_1 [ex_enter_1, ex_exit_1]) = [HANDLE_SCROLL 120]
   \<and> requestSyncTimer ex_after_flyby = Some 200
   \<and> snd (requestSync_fires ex_props [ex_root_130, ex_root_500, ex_root_500] ex_after_flyby)
       = [HANDLE_SCROLL 130, HANDLE_SCROLL 500, HANDLE_SCROLL 500]
   \<and> requestSyncTimer
        (fst (requestSync_fires ex_props [ex_root_130, ex_root_500, ex_root_500] ex_after_flyby))
       = Some 200
   \<and> dom (viewedIndexes ex_back_in_view) = {1}
   \<and> requestSyncTimer ex_back_in_view = Some 200
   \<and> snd (requestSync_fires ex_props [ex_root_130] ex_back_in_view) = []
   \<and> requestSyncTimer (fst (requestSync_fires ex_props [ex_root_130] ex_back_in_view)) = None"
proof -
  have i0: "counterInStep ex_mounted_1"
    by (simp add: counterInStep_def ex_mounted_1_def observe_def handle_init_def)
  have n0: "noRepeatedEnter ex_mounted_1 [ex_enter_1, ex_exit_1]"
    by (simp add: io_callback_def io_entry_step_def observe_def handle_init_def ex_props_def ex_root_def
        ex_rootBounds_def ex_enter_1_def ex_exit_1_def ex_enter_2_def ex_enter_9_def
        ex_mounted_1_def ex_mounted_1_2_def syncViewportToScrollPosition_def debounce_call_def
        intersectionOffset_def)
  have e1: "dom (viewedIndexes ex_after_flyby) = {}"
    by (simp add: ex_after_flyby_def io_callback_def io_entry_step_def observe_def handle_init_def ex_props_def ex_root_def
        ex_rootBounds_def ex_enter_1_def ex_exit_1_def ex_enter_2_def ex_enter_9_def
        ex_mounted_1_def ex_mounted_1_2_def syncViewportToScrollPosition_def debounce_call_def
        intersectionOffset_def)
  have t1: "requestSyncTimer ex_after_flyby = Some 200"
    by (simp add: ex_after_flyby_def io_callback_def io_entry_step_def observe_def handle_init_def ex_props_def ex_root_def
        ex_rootBounds_def ex_enter_1_def ex_exit_1_def ex_enter_2_def ex_enter_9_def
        ex_mounted_1_def ex_mounted_1_2_def syncViewportToScrollPosition_def debounce_call_def
        intersectionOffset_def)
  have e2: "dom (viewedIndexes ex_back_in_view) = {1}"
    by (simp add: ex_back_in_view_def ex_after_flyby_def io_callback_def io_entry_step_def observe_def handle_init_def ex_props_def ex_root_def
        ex_rootBounds_def ex_enter_1_def ex_exit_1_def ex_enter_2_def ex_enter_9_def
        ex_mounted_1_def ex_mounted_1_2_def syncViewportToScrollPosition_def debounce_call_def
        intersectionOffset_def)
  have t2: "requestSyncTimer ex_back_in_view = Some 200"
    by (simp add: ex_back_in_view_def ex_after_flyby_def io_callback_def io_entry_step_def observe_def handle_init_def ex_props_def ex_root_def
        ex_rootBounds_def ex_enter_1_def ex_exit_1_def ex_enter_2_def ex_enter_9_def
        ex_mounted_1_def ex_mounted_1_2_def syncViewportToScrollPosition_def debounce_call_def
        intersectionOffset_def)
  have i1: "counterInStep ex_after_flyby"
    using i0 n0 resync_polls_while_viewed_set_empty
      [of ex_mounted_1 "[ex_enter_1, ex_exit_1]" ex_props ex_root]
    by (simp add: ex_after_flyby_def)
  have n1: "noRepeatedEnter ex_after_flyby [ex_enter_1]"
    by (simp add: ex_after_flyby_def io_callback_def io_entry_step_def observe_def handle_init_def ex_props_def ex_root_def
        ex_rootBounds_def ex_enter_1_def ex_exit_1_def ex_enter_2_def ex_enter_9_def
        ex_mounted_1_def ex_mounted_1_2_def syncViewportToScrollPosition_def debounce_call_def
        intersectionOffset_def)
  have i2: "counterInStep ex_back_in_view"
    using i1 n1 resync_polls_while_viewed_set_empty
      [of ex_after_flyby "[ex_enter_1]" ex_props ex_root]
    by (simp add: ex_back_in_view_def)
  have m: "snd (io_callback ex_props ex_root ex_mounted_1 [ex_enter_1, ex_exit_1])
             = [HANDLE_SCROLL 120]
           \<and> requestSyncTimer (fst (io_callback ex_props ex_root ex_mounted_1
                 [ex_enter_1, ex_exit_1])) = Some 200"
    using i0 n0 e1 resync_polls_while_viewed_set_empty
      [of ex_mounted_1 "[ex_enter_1, ex_exit_1]" ex_props ex_root]
    by (simp add: ex_after_flyby_def syncViewportToScrollPosition_def ex_props_def ex_root_def)
  have polls: "requestSync_fires ex_props [ex_root_130, ex_root_500, ex_root_500] ex_after_flyby =
          (ex_after_flyby\<lparr>requestSyncTimer := Some 200\<rparr>,
           map (syncViewportToScrollPosition ex_props) [ex_root_130, ex_root_500, ex_root_500])"
    using i1 e1 t1 resync_polls_while_viewed_set_empty
      [of _ _ ex_props _ ex_after_flyby "[ex_root_130, ex_root_500, ex_root_500]"]
    by simp
  have stops: "requestSync_fires ex_props [ex_root_130] ex_back_in_view =
          (ex_back_in_view\<lparr>requestSyncTimer := None\<rparr>, [])"
    using i2 e2 resync_polls_while_viewed_set_empty
      [of _ _ ex_props _ ex_back_in_view "[ex_root_130]"]
    by simp
  show ?thesis using i0 n0 e1 t1 e2 t2 m unfolding polls stops
    by (simp add: syncViewportToScrollPosition_def ex_props_def ex_root_130_def ex_root_500_def)
qed

text \<open>
  The claim as stated fails in three ways.

  The retry is neither bounded nor backed off: from the state above, the delay with
  which the timer is started is 200 ms after each of the first three firings, as it was
  at the start, and no number bounds the count of offsets issued by successive
  firings. This is how the code is meant to work: \<^verbatim>\<open>requestSync\<close> is a fixed
  \<^verbatim>\<open>debounce(..., 200)\<close> that calls itself for as long as nothing is in view.

  The set can become empty outside a batch: when element 1, the only item in view, is
  unmounted, the cleanup of \<^verbatim>\<open>_observe\<close> removes it from the set and lowers the counter
  to 0, but it neither reports the native offset nor starts the timer, and no firing
  follows. The cleanup lacks the test of the counter that the observer makes after the
  same decrement.

  The counter can get ahead of the set: element 1 is reported as intersecting at time
  1 and again at time 3/2, and as not intersecting at time 2. The enter branch counts
  it twice (it lacks the membership test that the exit branch makes), so the batch
  ends with an empty set and a counter of 1: an anchor update is issued in place of
  the native offset, and the timer is not started.
\<close>

theorem resync_fallback_counterexample:
  "viewedCount ex_after_flyby = 0
   \<and> requestSyncTimer ex_after_flyby = Some 200
   \<and> requestSyncTimer (fst (requestSync_fires ex_props [ex_root_130] ex_after_flyby)) = Some 200
   \<and> requestSyncTimer (fst (requestSync_fires ex_props [ex_root_130, ex_root_500] ex_after_flyby))
       = Some 200
   \<and> requestSyncTimer
        (fst (requestSync_fires ex_props [ex_root_130, ex_root_500, ex_root_500] ex_after_flyby))
       = Some 200
   \<and> snd (requestSync_fires ex_props [ex_root_130, ex_root_500, ex_root_500] ex_after_flyby)
       = [HANDLE_SCROLL 130, HANDLE_SCROLL 500, HANDLE_SCROLL 500]
   \<and> \<not> (\<exists>N. \<forall>rs. length (snd (requestSync_fires ex_props rs ex_after_flyby)) \<le> N)
   \<and> dom (viewedIndexes ex_viewing_1) = {1}
   \<and> dom (viewedIndexes (observe_cleanup 1 ex_viewing_1)) = {}
   \<and> requestSyncTimer (observe_cleanup 1 ex_viewing_1) = None
   \<and> snd (requestSync_fires ex_props [ex_root] (observe_cleanup 1 ex_viewing_1)) = []
   \<and> dom (viewedIndexes (fst (io_callback ex_props ex_root ex_mounted_1
             [ex_enter_1, ex_leaving_1, ex_exit_1]))) = {}
   \<and> viewedCount (fst (io_callback ex_props ex_root ex_mounted_1
             [ex_enter_1, ex_leaving_1, ex_exit_1])) = 1
   \<and> snd (io_callback ex_props ex_root ex_mounted_1 [ex_enter_1, ex_leaving_1, ex_exit_1])
       = [HANDLE_ITEM_INTERSECTION (Some 0) (- 40)]
   \<and> requestSyncTimer (fst (io_callback ex_props ex_root ex_mounted_1
             [ex_enter_1, ex_leaving_1, ex_exit_1])) = None"
proof -
  have v: "viewedCount ex_after_flyby = 0"
    by (simp add: ex_after_flyby_def io_callback_def io_entry_step_def observe_def handle_init_def ex_props_def ex_root_def
        ex_rootBounds_def ex_enter_1_def ex_exit_1_def ex_enter_2_def ex_enter_9_def
        ex_mounted_1_def ex_mounted_1_2_def syncViewportToScrollPosition_def debounce_call_def
        intersectionOffset_def)
  have t: "requestSyncTimer ex_after_flyby = Some 200"
    by (simp add: ex_after_flyby_def io_callback_def io_entry_step_def observe_def handle_init_def ex_props_def ex_root_def
        ex_rootBounds_def ex_enter_1_def ex_exit_1_def ex_enter_2_def ex_enter_9_def
        ex_mounted_1_def ex_mounted_1_2_def syncViewportToScrollPosition_def debounce_call_def
        intersectionOffset_def)
  have f: "requestSync_fires ex_props rs ex_after_flyby =
          (if rs = [] then ex_after_flyby else ex_after_flyby\<lparr>requestSyncTimer := Some 200\<rparr>,
           map (syncViewportToScrollPosition ex_props) rs)" for rs
    using v t by (rule requestSync_fires_idle)
  have unbounded: "\<not> (\<exists>N. \<forall>rs. length (snd (requestSync_fires ex_props rs ex_after_flyby)) \<le> N)"
  proof
    assume "\<exists>N. \<forall>rs. length (snd (requestSync_fires ex_props rs ex_after_flyby)) \<le> N"
    then obtain N where "\<forall>rs. length (snd (requestSync_fires ex_props rs ex_after_flyby)) \<le> N"
      by blast
    then have "length (snd (requestSync_fires ex_props (replicate (Suc N) ex_root) ex_after_flyby)) \<le> N"
      by blast
    then show False unfolding f by simp
  qed
  have backoff: "requestSyncTimer (fst (requestSync_fires ex_props [ex_root_130] ex_after_flyby))
        = Some 200
   \<and> requestSyncTimer (fst (requestSync_fires ex_props [ex_root_130, ex_root_500] ex_after_flyby))
       = Some 200
   \<and> requestSyncTimer
        (fst (requestSync_fires ex_props [ex_root_130, ex_root_500, ex_root_500] ex_after_flyby))
       = Some 200
   \<and> snd (requestSync_fires ex_props [ex_root_130, ex_root_500, ex_root_500] ex_after_flyby)
       = [HANDLE_SCROLL 130, HANDLE_SCROLL 500, HANDLE_SCROLL 500]"
    unfolding f
    by (simp add: syncViewportToScrollPosition_def ex_props_def ex_root_130_def ex_root_500_def)
  have unmount: "dom (viewedIndexes ex_viewing_1) = {1}
   \<and> dom (viewedIndexes (observe_cleanup 1 ex_viewing_1)) = {}
   \<and> requestSyncTimer (observe_cleanup 1 ex_viewing_1) = None
   \<and> snd (requestSync_fires ex_props [ex_root] (observe_cleanup 1 ex_viewing_1)) = []"
    by (simp add: ex_viewing_1_def observe_cleanup_def requestSync_fire_def Let_def io_callback_def io_entry_step_def observe_def handle_init_def ex_props_def ex_root_def
        ex_rootBounds_def ex_enter_1_def ex_exit_1_def ex_enter_2_def ex_enter_9_def
        ex_mounted_1_def ex_mounted_1_2_def syncViewportToScrollPosition_def debounce_call_def
        intersectionOffset_def)
  have drift: "dom (viewedIndexes (fst (io_callback ex_props ex_root ex_mounted_1
             [ex_enter_1, ex_leaving_1, ex_exit_1]))) = {}
   \<and> viewedCount (fst (io_callback ex_props ex_root ex_mounted_1
             [ex_enter_1, ex_leaving_1, ex_exit_1])) = 1
   \<and> snd (io_callback ex_props ex_root ex_mounted_1 [ex_enter_1, ex_leaving_1, ex_exit_1])
       = [HANDLE_ITEM_INTERSECTION (Some 0) (- 40)]
   \<and> requestSyncTimer (fst (io_callback ex_props ex_root ex_mounted_1
             [ex_enter_1, ex_leaving_1, ex_exit_1])) = None"
    by (simp add: ex_leaving_1_def io_callback_def io_entry_step_def observe_def handle_init_def ex_props_def ex_root_def
        ex_rootBounds_def ex_enter_1_def ex_exit_1_def ex_enter_2_def ex_enter_9_def
        ex_mounted_1_def ex_mounted_1_2_def syncViewportToScrollPosition_def debounce_call_def
        intersectionOffset_def)
  show ?thesis using v t unbounded backoff unmount drift by blast
qed

subsection \<open>C6: one \<open>UPDATE_ITEM_SIZES\<close> for a batch of resizes\<close>

text \<open>
  Claim C6. For every batch of the resize observer, the observations of mounted items
  (the entries whose target is not the wrapper and is a mounted element) are collected,
  in the order of the batch, into a single \<open>UPDATE_ITEM_SIZES\<close> message whose sizes and
  indexes are parallel arrays; it is sent after the loop, so there is one such update
  for the batch and not one for each item, and none when the batch has no observation
  of a mounted item. The entries of the wrapper are reported on their own, as
  \<open>UPDATE_VIEWPORT_SIZE\<close> messages.
\<close>

theorem resizes_batched_into_one_update:
  "(let observations =
          List.map_filter (\<lambda>e. if ro_target e = wrapper then None
             else map_option
                    (Pair (if horizontal p then contentRect_width e else contentRect_height e))
                    (mountedIndexes s (ro_target e))) entries;
        resizes = (if observations = [] then []
                   else [UPDATE_ITEM_SIZES (map fst observations) (map snd observations)])
    in filter isItemSizes (ro_callback p wrapper s entries) = resizes
       \<and> ro_callback p wrapper s entries =
           map (\<lambda>e. UPDATE_VIEWPORT_SIZE (contentRect_width e) (contentRect_height e))
             (filter (\<lambda>e. ro_target e = wrapper) entries) @ resizes
       \<and> length (filter isItemSizes (ro_callback p wrapper s entries)) \<le> 1)"
  by (simp add: ro_callback_def ro_fold Let_def filter_isItemSizes_viewport)

text \<open>
  An instance: the wrapper is element 0 and items 5 and 6 are mounted as elements 1 and
  2. A batch reports element 1, the wrapper, the unmounted element 7 and element 2: the
  viewport is updated, and one message carries the heights 40 and 55 of items 5 and 6.
\<close>

theorem resizes_batched_into_one_update_witness:
  "ro_callback ex_props 0 ex_mounted_1_2
     [\<lparr>ro_target = 1, contentRect_width = 300, contentRect_height = 40\<rparr>,
      \<lparr>ro_target = 0, contentRect_width = 300, contentRect_height = 500\<rparr>,
      \<lparr>ro_target = 7, contentRect_width = 300, contentRect_height = 41\<rparr>,
      \<lparr>ro_target = 2, contentRect_width = 300, contentRect_height = 55\<rparr>]
   = [UPDATE_VIEWPORT_SIZE 300 500, UPDATE_ITEM_SIZES [40, 55] [5, 6]]"
  using resizes_batched_into_one_update
    [of 0 ex_props ex_mounted_1_2
        "[\<lparr>ro_target = 1, contentRect_width = 300, contentRect_height = 40\<rparr>,
          \<lparr>ro_target = 0, contentRect_width = 300, contentRect_height = 500\<rparr>,
          \<lparr>ro_target = 7, contentRect_width = 300, contentRect_height = 41\<rparr>,
          \<lparr>ro_target = 2, contentRect_width = 300, contentRect_height = 55\<rparr>]"]
  by (simp add: Let_def List.map_filter_simps ex_mounted_1_2_def observe_def handle_init_def
      ex_props_def)

subsection \<open>C7: an unmeasured item is rendered hidden\<close>

text \<open>
  Claim C7. For every mounted item index \<open>i\<close>, the item is rendered with
  \<^verbatim>\<open>visibility: hidden\<close> exactly when the store reports index \<open>i\<close> as unmeasured. The
  React \<^verbatim>\<open>Item\<close> sets no \<^verbatim>\<open>visibility\<close> otherwise (the item is visible by
  default); the Vue \<^verbatim>\<open>ListItem\<close>, given the store's answer as \<^verbatim>\<open>_hide\<close>, sets
  \<^verbatim>\<open>visibility: visible\<close> otherwise.
\<close>

theorem item_hidden_iff_unmeasured:
  "(styleOf (div_style (Item store props)) ''visibility'' = Some (Str ''hidden''))
     = getIsItemHeightUnCached store (item_index props)
   \<and> styleOf (div_style (Item store props)) ''visibility''
     = (if getIsItemHeightUnCached store (item_index props) then Some (Str ''hidden'') else None)
   \<and> (styleOf (div_style (ListItem rtl (vueItemProps store h i e))) ''visibility''
        = Some (Str ''hidden'')) = getIsItemHeightUnCached store i
   \<and> styleOf (div_style (ListItem rtl (vueItemProps store h i e))) ''visibility''
     = Some (Str (if getIsItemHeightUnCached store i then ''hidden'' else ''visible''))"
proof -
  have react: "styleOf (div_style (Item store props)) ''visibility''
     = (if getIsItemHeightUnCached store (item_index props) then Some (Str ''hidden'') else None)"
    by (simp add: Item_def styleOf_def Let_def)
  have vue: "styleOf (div_style (ListItem rtl (vueItemProps store h i e))) ''visibility''
     = Some (Str (if getIsItemHeightUnCached store i then ''hidden'' else ''visible''))"
    by (simp add: ListItem_def vueItemProps_def styleOf_def)
  show ?thesis unfolding react vue by simp
qed

text \<open>An instance: index 3 is the only unmeasured index; items 3 and 2 are rendered.\<close>

theorem item_hidden_iff_unmeasured_witness:
  "styleOf (div_style (Item ex_view
      \<lparr>item_key = Inr 3, item_element = (13::nat), item_index = 3, item_isHorizontal = False,
       item_isReversed = False\<rparr>)) ''visibility'' = Some (Str ''hidden'')
   \<and> styleOf (div_style (ListItem False (vueItemProps ex_view False 2 (12::nat)))) ''visibility''
     = Some (Str ''visible'')"
  using item_hidden_iff_unmeasured
    [of ex_view
        "\<lparr>item_key = Inr 3, item_element = (13::nat), item_index = 3, item_isHorizontal = False,
          item_isReversed = False\<rparr>" False False 2 "12::nat"]
  by (simp add: ex_view_def)

subsection \<open>C8: the mounted window\<close>

text \<open>
  Claim C8, as amended. For every render in which the viewport size is not 0 (and so
  for every such render with item count \<open>n \<ge> 1\<close>), the mounted item indices are
  exactly the contiguous window
  \<open>[max (startIndex - itemMargin) 0, min (endIndex + itemMargin) (n - 1)]\<close>, in
  ascending order, and no index outside \<open>[0, n - 1]\<close> is mounted.
\<close>

theorem mounted_window_when_viewport_known:
  assumes "getViewportSize st \<noteq> 0"
  shows "map item_index (innerChildren p st children) =
           [max (getStartIndex st - itemMargin p) 0 ..
            min (getEndIndex st + itemMargin p) (childCount children - 1)]
         \<and> set (map item_index (innerChildren p st children)) =
           {max (getStartIndex st - itemMargin p) 0 ..
            min (getEndIndex st + itemMargin p) (childCount children - 1)}
         \<and> set (map item_index (innerChildren p st children)) \<subseteq> {0 .. childCount children - 1}"
proof -
  have a: "map item_index (innerChildren p st children) =
           [max (getStartIndex st - itemMargin p) 0 ..
            min (getEndIndex st + itemMargin p) (childCount children - 1)]"
    using assms by (simp add: innerChildren_def items_indices)
  have b: "set (map item_index (innerChildren p st children)) =
           {max (getStartIndex st - itemMargin p) 0 ..
            min (getEndIndex st + itemMargin p) (childCount children - 1)}"
    unfolding a by simp
  have c: "{max (getStartIndex st - itemMargin p) 0 ..
            min (getEndIndex st + itemMargin p) (childCount children - 1)}
           \<subseteq> {0 .. childCount children - 1}"
    by auto
  show ?thesis using a b c by simp
qed

text \<open>
  An instance: six children of which four are valid, the visible range \<open>[2, 2]\<close>, a
  margin of 1 and a viewport of 40: the items 1, 2 and 3 are mounted.
\<close>

theorem mounted_window_when_viewport_known_witness:
  "getViewportSize ex_view \<noteq> 0
   \<and> childCount ex_children = 4
   \<and> map item_index (innerChildren ex_window_props ex_view ex_children) = [1, 2, 3]"
proof -
  have nz: "getViewportSize ex_view \<noteq> 0" by (simp add: ex_view_def)
  have n: "childCount ex_children = 4"
    by (simp add: ex_children_def childCount_def isInvalidElement_def)
  have "[1 .. 3] = [1, 2, (3::int)]" by (simp add: upto.simps)
  then show ?thesis
    using nz n mounted_window_when_viewport_known [OF nz, of ex_window_props ex_children]
    by (simp add: ex_view_def ex_window_props_def)
qed

text \<open>
  The claim as stated fails before the viewport has been measured: with the same
  children, range and margin but a viewport size of 0, the window is \<open>{1, 2, 3}\<close> and
  nothing is mounted.
\<close>

theorem mounted_window_counterexample:
  "1 \<le> childCount ex_children
   \<and> getViewportSize ex_view_unsized = 0
   \<and> set (map item_index (innerChildren ex_window_props ex_view_unsized ex_children)) = {}
   \<and> {max (getStartIndex ex_view_unsized - itemMargin ex_window_props) 0 ..
       min (getEndIndex ex_view_unsized + itemMargin ex_window_props)
         (childCount ex_children - 1)} = {1 .. 3}
   \<and> set (map item_index (innerChildren ex_window_props ex_view_unsized ex_children))
       \<noteq> {max (getStartIndex ex_view_unsized - itemMargin ex_window_props) 0 ..
           min (getEndIndex ex_view_unsized + itemMargin ex_window_props)
             (childCount ex_children - 1)}"
proof -
  have n: "childCount ex_children = 4"
    by (simp add: ex_children_def childCount_def isInvalidElement_def)
  have e: "innerChildren ex_window_props ex_view_unsized ex_children = []"
    by (simp add: innerChildren_def ex_view_unsized_def)
  have "{1 .. 3} \<noteq> ({} :: int set)" by simp
  then show ?thesis unfolding n e
    by (simp add: ex_view_unsized_def ex_view_def ex_window_props_def)
qed

subsection \<open>C9: \<^verbatim>\<open>onEndReached\<close> fires at most once for a count\<close>

text \<open>
  Claim C9. A run of the effect invokes the callback exactly when a callback is given,
  \<open>count - 1 - endIndex \<le> endThreshold\<close> and the ref is below the current count; the
  ref is set to the count before the callback runs (every logged call saw the ref equal
  to its count). Hence, over any history of runs from the initial state, the callback
  is invoked at most once for every fixed item count \<open>c\<close>.
\<close>

theorem onEndReached_once_per_count:
  "endReachedEffect p count endIndex s =
     (if onEndReached p \<and> count - 1 - endIndex \<le> endThreshold p
         \<and> onEndReachedCalledIndex s < count
      then s\<lparr>onEndReachedCalledIndex := count,
             endReachedCalls := endReachedCalls s @ [(count, count)]\<rparr>
      else s)
   \<and> length (filter (\<lambda>call. fst call = c)
               (endReachedCalls (endReachedEffects runs end_state_init))) \<le> 1
   \<and> (\<forall>call \<in> set (endReachedCalls (endReachedEffects runs end_state_init)).
         snd call = fst call)"
proof -
  have inv: "(\<forall>c \<in> set (endReachedCalls (endReachedEffects runs end_state_init)).
            fst c \<le> onEndReachedCalledIndex (endReachedEffects runs end_state_init)
            \<and> snd c = fst c)
         \<and> distinct (map fst (endReachedCalls (endReachedEffects runs end_state_init)))"
    by (rule endReachedEffects_inv) (simp_all add: end_state_init_def)
  then have d: "distinct (map fst (endReachedCalls (endReachedEffects runs end_state_init)))"
    by blast
  have "length (filter (\<lambda>call. fst call = c)
                 (endReachedCalls (endReachedEffects runs end_state_init))) \<le> 1"
    using d by (rule distinct_map_filter_le1)
  with inv show ?thesis by (simp add: endReachedEffect_unfold)
qed

text \<open>
  An instance: with 10 items the end is reached, left and reached again, then the list
  grows to 20 items and its end is reached, then it shrinks back to 10. The callback
  runs once at count 10 and once at count 20.
\<close>

theorem onEndReached_once_per_count_witness:
  "endReachedCalls (endReachedEffects ex_history end_state_init) = [(10, 10), (20, 20)]
   \<and> length (filter (\<lambda>call. fst call = 10)
               (endReachedCalls (endReachedEffects ex_history end_state_init))) \<le> 1"
  using onEndReached_once_per_count [of ex_window_props 10 9 end_state_init 10 ex_history]
  by (simp add: ex_history_def ex_window_props_def endReachedEffect_def end_state_init_def)

subsection \<open>C10: nothing is rendered while the viewport size is 0\<close>

text \<open>
  Claim C10. Whenever the viewport size reported by the store is exactly 0, the inner
  container receives no item at all, whatever the visible range and the item count.
\<close>

theorem no_items_when_viewport_size_zero:
  "getViewportSize st = 0 \<Longrightarrow> innerChildren p st children = []"
  by (simp add: innerChildren_def)

theorem no_items_when_viewport_size_zero_witness:
  "getViewportSize ex_view_unsized = 0
   \<and> innerChildren ex_window_props ex_view_unsized ex_children = []
   \<and> map item_index (items ex_window_props ex_view_unsized ex_children) = [1, 2, 3]"
proof -
  have z: "getViewportSize ex_view_unsized = 0" by (simp add: ex_view_unsized_def)
  have "map item_index (items ex_window_props ex_view_unsized ex_children) = [1, 2, 3]"
    by (simp add: items_def childCount_def isInvalidElement_def startIndexWithMargin_def
        endIndexWithMargin_def max_util_def min_util_def ex_view_unsized_def ex_view_def
        ex_window_props_def ex_children_def)
  then show ?thesis
    using z no_items_when_viewport_size_zero [OF z, of ex_window_props ex_children]
    by simp
qed

end
